theory Spec2Isabelle
  imports Main
begin

section \<open>Errors and the HTTP transport\<close>

text \<open>
  The exceptions of \<^verbatim>\<open>udmurtwrapper.py\<close> that can leave one of the two public
  operations. \<open>APIError\<close> carries the status code and the body text of the failed
  response, \<open>WordNotFoundError\<close> the word of the call, \<open>TextsNotFoundError\<close> the
  search text, \<open>ValueError\<close> the rejected language code. \<open>IndexError\<close> is what
  \<^verbatim>\<open>analyze_words(word)[0]\<close> raises on an empty list of analyses, \<open>TypeError\<close>
  what a call raises whose arguments do not fit the signature.
\<close>

datatype error =
    APIError int string
  | WordNotFoundError string
  | TextsNotFoundError string
  | ValueError string
  | IndexError
  | TypeError

text \<open>
  What \<^verbatim>\<open>requests.post\<close> hands back: the status code, the body as text and the
  body decoded as JSON (\<^verbatim>\<open>response.json()\<close>).
\<close>

record 'a http_response =
  status_code :: int
  resp_text :: string
  resp_json :: 'a

text \<open>
  A request is the URL together with the JSON payload. The upstream service is a
  parameter of the model: it answers a request, and its answer may depend on every
  request the client has sent before (the request log). The log is the state that
  \<open>make_request\<close> threads: one entry is appended per call of \<^verbatim>\<open>requests.post\<close>,
  whether or not the call ends in an \<open>APIError\<close>. \<^verbatim>\<open>UdmurtDictionary\<close> and
  \<^verbatim>\<open>UdmurtCorpus\<close> implement \<^verbatim>\<open>make_request\<close> with the same statements, so
  one definition, polymorphic in the payload and in the decoded response, serves both.
  The headers of a client are the empty dictionary in every request and are left out.
\<close>

type_synonym 'p request = "string \<times> 'p"

type_synonym ('p, 'a) upstream = "'p request list \<Rightarrow> 'p request \<Rightarrow> 'a http_response"

definition make_request ::
  "('p, 'a) upstream \<Rightarrow> string \<Rightarrow> 'p \<Rightarrow> 'p request list \<Rightarrow> (error + 'a) \<times> 'p request list"
where
  "make_request post endpoint payload log =
     (let req = (''https://udmcorpus.udman.ru/api/public/'' @ endpoint, payload);
          response = post log req
      in (if status_code response \<noteq> 200
          then Inl (APIError (status_code response) (resp_text response))
          else Inr (resp_json response),
          log @ [req]))"

section \<open>Dictionary service\<close>

record language =
  lang_id :: int
  lang_code :: string

definition LANGUAGES :: "string \<rightharpoonup> language" where
  "LANGUAGES =
     [''udm'' \<mapsto> \<lparr>lang_id = 1, lang_code = ''udm''\<rparr>,
      ''rus'' \<mapsto> \<lparr>lang_id = 2, lang_code = ''rus''\<rparr>]"

text \<open>The payload \<^verbatim>\<open>{"word": word, "lang": {"id": id}}\<close> of a dictionary request.\<close>

record dict_payload =
  dp_word :: string
  dp_lang_id :: int

text \<open>One entry of a dictionary response: the keys the client reads.\<close>

record dict_item =
  body :: string
  srcWord :: string

text \<open>One analysis returned by the morphological analyzer: the field the client reads.\<close>

record wordform =
  lemma_of :: string

datatype word_result = Texts "string list" | FullJson "dict_item list"

text \<open>
  \<^verbatim>\<open>str.replace(old, new)\<close> for a pattern \<open>old\<close> of one character: every
  occurrence of the character is replaced, left to right. The tilde is an ASCII
  character, so it is one byte that occurs in no multi-byte UTF-8 sequence, and
  replacing it bytewise is replacing it in the Python string.
\<close>

definition str_replace_char :: "char \<Rightarrow> string \<Rightarrow> string \<Rightarrow> string" where
  "str_replace_char old new s = concat (map (\<lambda>c. if c = old then new else [c]) s)"

text \<open>
  The loop of \<^verbatim>\<open>_process_response\<close>, with \<open>results\<close> as the accumulator.
  \<open>html_text\<close> stands for \<^verbatim>\<open>BeautifulSoup(_, "lxml").text\<close>. The parameter
  \<open>word\<close> is received and never read, as in the source.
\<close>

fun process_items ::
  "(string \<Rightarrow> string) \<Rightarrow> bool \<Rightarrow> string list \<Rightarrow> dict_item list \<Rightarrow> string list"
where
  "process_items html_text replace_tilde results [] = results"
| "process_items html_text replace_tilde results (item # response) =
     (let text0 = html_text (body item);
          text1 = (if replace_tilde then str_replace_char CHR ''~'' (srcWord item) text0
                   else text0)
      in process_items html_text replace_tilde (results @ [text1]) response)"

definition process_response ::
  "(string \<Rightarrow> string) \<Rightarrow> dict_item list \<Rightarrow> string \<Rightarrow> bool \<Rightarrow> string list"
where
  "process_response html_text response word replace_tilde =
     process_items html_text replace_tilde [] response"

text \<open>The last two statements of \<^verbatim>\<open>get_word\<close>, shared by both paths that reach them.\<close>

definition get_word_return ::
  "(string \<Rightarrow> string) \<Rightarrow> dict_item list \<Rightarrow> string \<Rightarrow> bool \<Rightarrow> bool \<Rightarrow> word_result"
where
  "get_word_return html_text response word replace_tilde return_full_json =
     (if return_full_json then FullJson response
      else Texts (process_response html_text response word replace_tilde))"

text \<open>
  The body of \<^verbatim>\<open>get_word\<close>, as it runs on a cache miss. The lookup
  \<^verbatim>\<open>self.LANGUAGES[lang]\<close> is evaluated while the payload is built, before
  \<^verbatim>\<open>make_request\<close> is entered; its \<open>KeyError\<close> becomes the \<open>ValueError\<close>.
\<close>

definition get_word_body ::
  "(dict_payload, dict_item list) upstream \<Rightarrow> (string \<Rightarrow> wordform list) \<Rightarrow> (string \<Rightarrow> string) \<Rightarrow>
   string \<Rightarrow> string \<Rightarrow> bool \<Rightarrow> bool \<Rightarrow> bool \<Rightarrow>
   dict_payload request list \<Rightarrow> (error + word_result) \<times> dict_payload request list"
where
  "get_word_body post analyze_words html_text word lang replace_tilde return_full_json
       lemmatize_if_not_found log =
     (case LANGUAGES lang of
        None \<Rightarrow> (Inl (ValueError lang), log)
      | Some l \<Rightarrow>
          (case make_request post ''dictionary/search''
                  \<lparr>dp_word = word, dp_lang_id = lang_id l\<rparr> log of
             (Inl e, log1) \<Rightarrow> (Inl e, log1)
           | (Inr response, log1) \<Rightarrow>
               if response = [] then
                 (if lemmatize_if_not_found then
                    (case analyze_words word of
                       [] \<Rightarrow> (Inl IndexError, log1)
                     | w # _ \<Rightarrow>
                         (let new_word = lemma_of w in
                          if new_word \<noteq> [] then
                            (case make_request post ''dictionary/search''
                                    \<lparr>dp_word = new_word, dp_lang_id = lang_id l\<rparr> log1 of
                               (Inl e, log2) \<Rightarrow> (Inl e, log2)
                             | (Inr response2, log2) \<Rightarrow>
                                 if response2 = [] then (Inl (WordNotFoundError word), log2)
                                 else (Inr (get_word_return html_text response2 new_word
                                              replace_tilde return_full_json), log2))
                          else (Inl (WordNotFoundError word), log1)))
                  else (Inl (WordNotFoundError word), log1))
               else (Inr (get_word_return html_text response word
                            replace_tilde return_full_json), log1)))"

text \<open>
  \<^verbatim>\<open>functools.lru_cache(maxsize)\<close> around a function that may raise. The cache is
  an association list, most recently used entry first. A hit returns the stored value
  without calling the function and moves the entry to the front. A miss calls the
  function; a raised exception leaves the cache as it was, a returned value is stored
  at the front and the least recently used entry is dropped when the cache is full.
\<close>

definition lru_cache ::
  "nat \<Rightarrow> ('k \<Rightarrow> 's \<Rightarrow> (error + 'v) \<times> 's) \<Rightarrow> 'k \<Rightarrow> ('k \<times> 'v) list \<times> 's \<Rightarrow>
   (error + 'v) \<times> ('k \<times> 'v) list \<times> 's"
where
  "lru_cache maxsize f k cs =
     (case cs of (cache, s) \<Rightarrow>
        (case map_of cache k of
           Some v \<Rightarrow> (Inr v, (k, v) # filter (\<lambda>kv. fst kv \<noteq> k) cache, s)
         | None \<Rightarrow>
             (case f k s of
                (Inl e, s') \<Rightarrow> (Inl e, cache, s')
              | (Inr v, s') \<Rightarrow> (Inr v, take maxsize ((k, v) # cache), s'))))"

text \<open>
  How a call of \<^verbatim>\<open>get_word\<close> is written: the positional arguments after \<open>self\<close>
  (the signature has five parameters, so at most five), then the keyword arguments in
  the order of the call. \<^verbatim>\<open>functools.lru_cache\<close> builds its key from the call as it
  is written: the positional values, then the keyword names and values in their
  order. Defaults are not filled in, so calls that bind the same five values and are
  spelled differently have different keys.
\<close>

datatype positional =
    P0
  | P1 string
  | P2 string string
  | P3 string string bool
  | P4 string string bool bool
  | P5 string string bool bool bool

datatype keyword =
    Kw_word string
  | Kw_lang string
  | Kw_replace_tilde bool
  | Kw_return_full_json bool
  | Kw_lemmatize_if_not_found bool

record call =
  args :: positional
  kwds :: "keyword list"

text \<open>
  Binding a call to the parameters \<^verbatim>\<open>word, lang='udm', replace_tilde=False,
  return_full_json=False, lemmatize_if_not_found=False\<close>, as Python does when the
  function is entered: positional arguments fill the parameters in order, a keyword
  for a parameter that is bound already is a \<open>TypeError\<close>, as is a call that leaves
  \<open>word\<close> unbound; the other parameters fall back to their defaults.
\<close>

record binding =
  b_word :: "string option"
  b_lang :: "string option"
  b_replace_tilde :: "bool option"
  b_return_full_json :: "bool option"
  b_lemmatize_if_not_found :: "bool option"

fun bind_positional :: "positional \<Rightarrow> binding" where
  "bind_positional P0 =
     \<lparr>b_word = None, b_lang = None, b_replace_tilde = None, b_return_full_json = None,
      b_lemmatize_if_not_found = None\<rparr>"
| "bind_positional (P1 w) =
     \<lparr>b_word = Some w, b_lang = None, b_replace_tilde = None, b_return_full_json = None,
      b_lemmatize_if_not_found = None\<rparr>"
| "bind_positional (P2 w l) =
     \<lparr>b_word = Some w, b_lang = Some l, b_replace_tilde = None, b_return_full_json = None,
      b_lemmatize_if_not_found = None\<rparr>"
| "bind_positional (P3 w l rt) =
     \<lparr>b_word = Some w, b_lang = Some l, b_replace_tilde = Some rt, b_return_full_json = None,
      b_lemmatize_if_not_found = None\<rparr>"
| "bind_positional (P4 w l rt rfj) =
     \<lparr>b_word = Some w, b_lang = Some l, b_replace_tilde = Some rt,
      b_return_full_json = Some rfj, b_lemmatize_if_not_found = None\<rparr>"
| "bind_positional (P5 w l rt rfj lem) =
     \<lparr>b_word = Some w, b_lang = Some l, b_replace_tilde = Some rt,
      b_return_full_json = Some rfj, b_lemmatize_if_not_found = Some lem\<rparr>"

fun bind_keyword :: "keyword \<Rightarrow> binding \<Rightarrow> error + binding" where
  "bind_keyword (Kw_word w) b =
     (if b_word b = None then Inr (b\<lparr>b_word := Some w\<rparr>) else Inl TypeError)"
| "bind_keyword (Kw_lang l) b =
     (if b_lang b = None then Inr (b\<lparr>b_lang := Some l\<rparr>) else Inl TypeError)"
| "bind_keyword (Kw_replace_tilde v) b =
     (if b_replace_tilde b = None then Inr (b\<lparr>b_replace_tilde := Some v\<rparr>)
      else Inl TypeError)"
| "bind_keyword (Kw_return_full_json v) b =
     (if b_return_full_json b = None then Inr (b\<lparr>b_return_full_json := Some v\<rparr>)
      else Inl TypeError)"
| "bind_keyword (Kw_lemmatize_if_not_found v) b =
     (if b_lemmatize_if_not_found b = None then Inr (b\<lparr>b_lemmatize_if_not_found := Some v\<rparr>)
      else Inl TypeError)"

fun bind_keywords :: "keyword list \<Rightarrow> binding \<Rightarrow> error + binding" where
  "bind_keywords [] b = Inr b"
| "bind_keywords (k # ks) b =
     (case bind_keyword k b of Inl e \<Rightarrow> Inl e | Inr b' \<Rightarrow> bind_keywords ks b')"

definition bind_call :: "call \<Rightarrow> error + string \<times> string \<times> bool \<times> bool \<times> bool" where
  "bind_call c =
     (case bind_keywords (kwds c) (bind_positional (args c)) of
        Inl e \<Rightarrow> Inl e
      | Inr b \<Rightarrow>
          (case b_word b of
             None \<Rightarrow> Inl TypeError
           | Some w \<Rightarrow>
               Inr (w,
                    (case b_lang b of None \<Rightarrow> ''udm'' | Some l \<Rightarrow> l),
                    (case b_replace_tilde b of None \<Rightarrow> False | Some v \<Rightarrow> v),
                    (case b_return_full_json b of None \<Rightarrow> False | Some v \<Rightarrow> v),
                    (case b_lemmatize_if_not_found b of None \<Rightarrow> False | Some v \<Rightarrow> v))))"

text \<open>
  The function that the decorator wraps (\<^verbatim>\<open>get_word.__wrapped__\<close>): entering it
  binds the arguments of the call, then the body runs.
\<close>

definition get_word_wrapped ::
  "(dict_payload, dict_item list) upstream \<Rightarrow> (string \<Rightarrow> wordform list) \<Rightarrow> (string \<Rightarrow> string) \<Rightarrow>
   call \<Rightarrow> dict_payload request list \<Rightarrow> (error + word_result) \<times> dict_payload request list"
where
  "get_word_wrapped post analyze_words html_text c log =
     (case bind_call c of
        Inl e \<Rightarrow> (Inl e, log)
      | Inr (w, l, rt, rfj, lem) \<Rightarrow>
          get_word_body post analyze_words html_text w l rt rfj lem log)"

text \<open>
  \<^verbatim>\<open>get_word\<close> as its callers see it: the function behind
  \<^verbatim>\<open>lru_cache(maxsize=128)\<close>. The key is the call (on one client, so \<open>self\<close> is
  the same in every key); the lookup in the cache comes first, and only a miss enters
  the function.
\<close>

definition get_word ::
  "(dict_payload, dict_item list) upstream \<Rightarrow> (string \<Rightarrow> wordform list) \<Rightarrow> (string \<Rightarrow> string) \<Rightarrow>
   call \<Rightarrow> (call \<times> word_result) list \<times> dict_payload request list \<Rightarrow>
   (error + word_result) \<times> (call \<times> word_result) list \<times> dict_payload request list"
where
  "get_word post analyze_words html_text c cs =
     lru_cache 128 (get_word_wrapped post analyze_words html_text) c cs"

text \<open>
  The facade \<^verbatim>\<open>search_word\<close>: its own defaults are filled in before it calls
  \<^verbatim>\<open>get_word\<close>, always with all five arguments, positionally.
\<close>

definition search_word ::
  "(dict_payload, dict_item list) upstream \<Rightarrow> (string \<Rightarrow> wordform list) \<Rightarrow> (string \<Rightarrow> string) \<Rightarrow>
   string \<Rightarrow> string \<Rightarrow> bool \<Rightarrow> bool \<Rightarrow> bool \<Rightarrow>
   (call \<times> word_result) list \<times> dict_payload request list \<Rightarrow>
   (error + word_result) \<times> (call \<times> word_result) list \<times> dict_payload request list"
where
  "search_word post analyze_words html_text word lang replace_tilde return_full_json
       lemmatize_if_not_found cs =
     get_word post analyze_words html_text
       \<lparr>args = P5 word lang replace_tilde return_full_json lemmatize_if_not_found,
        kwds = []\<rparr> cs"


section \<open>Corpus service\<close>

text \<open>
  The search parameters: the keys of \<^verbatim>\<open>DEFAULT_PARAMS\<close>. The key \<^verbatim>\<open>page\<close> is the
  field \<open>param_page\<close> here, since the request payload has a key of the same name.
\<close>

record search_params =
  count :: int
  all_texts :: bool
  return_full_json :: bool
  full_compare :: bool
  full_text_mode :: bool
  param_page :: int
  per_page :: int
  rows_count :: int

definition DEFAULT_PARAMS :: search_params where
  "DEFAULT_PARAMS =
     \<lparr>count = 10, all_texts = False, return_full_json = False, full_compare = False,
      full_text_mode = False, param_page = 1, per_page = 10, rows_count = 0\<rparr>"

text \<open>
  The caller's \<^verbatim>\<open>params\<close> dictionary: each known key is present (\<open>Some\<close>) or absent.
  Keys outside \<^verbatim>\<open>DEFAULT_PARAMS\<close> are never read by the client and are left out.
\<close>

record caller_params =
  given_count :: "int option"
  given_all_texts :: "bool option"
  given_return_full_json :: "bool option"
  given_full_compare :: "bool option"
  given_full_text_mode :: "bool option"
  given_page :: "int option"
  given_per_page :: "int option"
  given_rows_count :: "int option"

text \<open>\<^verbatim>\<open>search_params.update(params)\<close>: a present key overrides the default.\<close>

definition update_params :: "search_params \<Rightarrow> caller_params \<Rightarrow> search_params" where
  "update_params d p =
     \<lparr>count = (case given_count p of None \<Rightarrow> count d | Some v \<Rightarrow> v),
      all_texts = (case given_all_texts p of None \<Rightarrow> all_texts d | Some v \<Rightarrow> v),
      return_full_json =
        (case given_return_full_json p of None \<Rightarrow> return_full_json d | Some v \<Rightarrow> v),
      full_compare = (case given_full_compare p of None \<Rightarrow> full_compare d | Some v \<Rightarrow> v),
      full_text_mode =
        (case given_full_text_mode p of None \<Rightarrow> full_text_mode d | Some v \<Rightarrow> v),
      param_page = (case given_page p of None \<Rightarrow> param_page d | Some v \<Rightarrow> v),
      per_page = (case given_per_page p of None \<Rightarrow> per_page d | Some v \<Rightarrow> v),
      rows_count = (case given_rows_count p of None \<Rightarrow> rows_count d | Some v \<Rightarrow> v)\<rparr>"

text \<open>
  The first statements of \<^verbatim>\<open>get_texts\<close>: a copy of the defaults, updated when
  \<^verbatim>\<open>params\<close> is neither \<^verbatim>\<open>None\<close> nor empty (updating with the empty dictionary
  changes nothing).
\<close>

definition merge_params :: "caller_params option \<Rightarrow> search_params" where
  "merge_params params =
     (case params of None \<Rightarrow> DEFAULT_PARAMS | Some p \<Rightarrow> update_params DEFAULT_PARAMS p)"

text \<open>The keyword arguments that \<^verbatim>\<open>_build_search_payload\<close> looks up with \<^verbatim>\<open>kwargs.get\<close>.\<close>

record kwargs =
  kw_full_compare :: "bool option"
  kw_full_text_mode :: "bool option"
  kw_page :: "int option"
  kw_per_page :: "int option"
  kw_rows_count :: "int option"

text \<open>
  The search payload: the keys whose values depend on an argument, and \<open>title\<close>. The
  other keys (\<^verbatim>\<open>gr\<close>, \<^verbatim>\<open>gloss\<close>, \<^verbatim>\<open>startYear\<close>, \<^verbatim>\<open>endYear\<close>, \<^verbatim>\<open>theme\<close>, \<^verbatim>\<open>type\<close>,
  \<^verbatim>\<open>authors\<close>, \<^verbatim>\<open>compiledgr\<close>, \<^verbatim>\<open>compiledgloss\<close>) hold the same literal in every
  payload. The keys \<^verbatim>\<open>word\<close> and \<^verbatim>\<open>text\<close> are the fields \<open>word_field\<close> and
  \<open>text_field\<close>.
\<close>

record search_payload =
  searchMode :: int
  word_field :: "string option"
  page :: int
  perPage :: int
  fullcompare :: bool
  text_field :: "string option"
  title :: string
  rows :: int

definition build_search_payload :: "string \<Rightarrow> kwargs \<Rightarrow> search_payload" where
  "build_search_payload text kwargs =
     (let full_text = (kw_full_text_mode kwargs = Some True);
          search_mode = (if full_text then 1 else 0);
          word' = (if full_text then None else Some text);
          text_param = (if full_text then Some text else None)
      in \<lparr>searchMode = search_mode,
          word_field = word',
          page = (case kw_page kwargs of None \<Rightarrow> 1 | Some v \<Rightarrow> v),
          perPage = (case kw_per_page kwargs of None \<Rightarrow> 10 | Some v \<Rightarrow> v),
          fullcompare = (case kw_full_compare kwargs of None \<Rightarrow> False | Some v \<Rightarrow> v),
          text_field = text_param,
          title = [],
          rows = (case kw_rows_count kwargs of None \<Rightarrow> 0 | Some v \<Rightarrow> v)\<rparr>)"

text \<open>
  One page of a search response: the keys the client reads. The keys \<^verbatim>\<open>last\<close> and
  \<^verbatim>\<open>empty\<close> are the fields \<open>last_page\<close> and \<open>empty_page\<close>; of a content item the
  client reads \<^verbatim>\<open>body\<close>, the field \<open>item_body\<close>.
\<close>

record text_item =
  item_body :: string

record search_page =
  totalElements :: int
  last_page :: bool
  numberOfElements :: int
  empty_page :: bool
  content :: "text_item list"

text \<open>
  The \<^verbatim>\<open>while\<close> loop of \<^verbatim>\<open>_fetch_texts\<close>. Nothing in the source bounds the number of
  iterations (an upstream that never reports \<^verbatim>\<open>last\<close> and counts no elements keeps it
  running), so the model takes fuel: the number of loop bodies it may run. The result
  is \<open>None\<close> when the fuel runs out with the loop condition still true; the request
  log is returned in every case.
\<close>

fun fetch_loop ::
  "nat \<Rightarrow> (search_payload, search_page) upstream \<Rightarrow> string \<Rightarrow> search_params \<Rightarrow>
   int \<Rightarrow> int \<Rightarrow> int \<Rightarrow> int \<Rightarrow> search_page list \<Rightarrow> search_payload request list \<Rightarrow>
   (error + search_page list \<times> int) option \<times> search_payload request list"
where
  "fetch_loop 0 post text params total_elements count' curr_elements curr_page results log =
     (if curr_elements < count' then (None, log)
      else (Some (Inr (results, count')), log))"
| "fetch_loop (Suc fuel) post text params total_elements count' curr_elements curr_page
       results log =
     (if curr_elements < count' then
        (case make_request post ''search''
                (build_search_payload text
                   \<lparr>kw_full_compare = Some (full_compare params),
                    kw_full_text_mode = Some (full_text_mode params),
                    kw_page = Some curr_page,
                    kw_per_page = None,
                    kw_rows_count = Some total_elements\<rparr>) log of
           (Inl e, log') \<Rightarrow> (Some (Inl e), log')
         | (Inr curr_res, log') \<Rightarrow>
             (let curr_elements' = curr_elements + numberOfElements curr_res;
                  is_last_page = last_page curr_res;
                  results' = results @ [curr_res]
              in if is_last_page then (Some (Inr (results', count')), log')
                 else fetch_loop fuel post text params total_elements count' curr_elements'
                        (curr_page + 1) results' log'))
      else (Some (Inr (results, count')), log))"

definition fetch_texts ::
  "nat \<Rightarrow> (search_payload, search_page) upstream \<Rightarrow> string \<Rightarrow> search_params \<Rightarrow>
   search_payload request list \<Rightarrow>
   (error + search_page list \<times> int) option \<times> search_payload request list"
where
  "fetch_texts fuel post text params log =
     (case make_request post ''search''
             (build_search_payload text
                \<lparr>kw_full_compare = Some (full_compare params),
                 kw_full_text_mode = Some (full_text_mode params),
                 kw_page = None,
                 kw_per_page = None,
                 kw_rows_count = None\<rparr>) log of
        (Inl e, log1) \<Rightarrow> (Some (Inl e), log1)
      | (Inr first_res, log1) \<Rightarrow>
          (let total_elements = totalElements first_res;
               is_last_page = last_page first_res;
               number_of_elements = numberOfElements first_res;
               is_empty = empty_page first_res;
               curr_elements = number_of_elements;
               count0 = count params
           in if is_empty then (Some (Inr ([], count0)), log1)
              else if is_last_page then (Some (Inr ([first_res], count0)), log1)
              else (let count' = (if all_texts params then total_elements else count0)
                    in fetch_loop fuel post text params total_elements count' curr_elements 2
                         [first_res] log1)))"

text \<open>
  The Python slice \<^verbatim>\<open>xs[:n]\<close>: the first \<open>n\<close> items for \<open>n \<ge> 0\<close>, all but the last
  \<open>-n\<close> items for \<open>n < 0\<close>.
\<close>

definition slice_to :: "int \<Rightarrow> 'a list \<Rightarrow> 'a list" where
  "slice_to n xs = (if 0 \<le> n then take (nat n) xs else take (length xs - nat (- n)) xs)"

datatype texts_result = Bodies "string list" | FullPages "search_page list"

definition get_texts ::
  "nat \<Rightarrow> (search_payload, search_page) upstream \<Rightarrow> string \<Rightarrow> caller_params option \<Rightarrow>
   search_payload request list \<Rightarrow>
   (error + texts_result) option \<times> search_payload request list"
where
  "get_texts fuel post text params log =
     (let search_params = merge_params params
      in case fetch_texts fuel post text search_params log of
           (None, log') \<Rightarrow> (None, log')
         | (Some (Inl e), log') \<Rightarrow> (Some (Inl e), log')
         | (Some (Inr (results, new_count)), log') \<Rightarrow>
             if length results = 0 then (Some (Inl (TextsNotFoundError text)), log')
             else if return_full_json search_params then (Some (Inr (FullPages results)), log')
             else (Some (Inr (Bodies (slice_to new_count
                      (concat (map (\<lambda>page. map item_body (content page)) results))))), log'))"

section \<open>The requests and responses of one search\<close>

text \<open>
  The request for page \<open>k\<close> of a search, for \<open>k = 1, 2, ...\<close>, given the value
  \<open>total_elements\<close> of \<^verbatim>\<open>totalElements\<close> in the first response; the log after the requests
  for the pages before \<open>k\<close>; and the upstream's answer to the request for page \<open>k\<close>
  after that history.
\<close>

definition page_request :: "string \<Rightarrow> search_params \<Rightarrow> int \<Rightarrow> nat \<Rightarrow> search_payload request" where
  "page_request text params total_elements k =
     (''https://udmcorpus.udman.ru/api/public/search'',
      build_search_payload text
        \<lparr>kw_full_compare = Some (full_compare params),
         kw_full_text_mode = Some (full_text_mode params),
         kw_page = (if k = 1 then None else Some (int k)),
         kw_per_page = None,
         kw_rows_count = (if k = 1 then None else Some total_elements)\<rparr>)"

definition first_total ::
  "(search_payload, search_page) upstream \<Rightarrow> search_payload request list \<Rightarrow> string \<Rightarrow>
   search_params \<Rightarrow> int"
where
  "first_total post log text params =
     totalElements (resp_json (post log (page_request text params 0 1)))"

definition history ::
  "(search_payload, search_page) upstream \<Rightarrow> search_payload request list \<Rightarrow> string \<Rightarrow>
   search_params \<Rightarrow> nat \<Rightarrow> search_payload request list"
where
  "history post log text params k =
     log @ map (page_request text params (first_total post log text params)) [1..<k]"

definition page_response ::
  "(search_payload, search_page) upstream \<Rightarrow> search_payload request list \<Rightarrow> string \<Rightarrow>
   search_params \<Rightarrow> nat \<Rightarrow> search_page http_response"
where
  "page_response post log text params k =
     post (history post log text params k)
       (page_request text params (first_total post log text params) k)"

definition page_of ::
  "(search_payload, search_page) upstream \<Rightarrow> search_payload request list \<Rightarrow> string \<Rightarrow>
   search_params \<Rightarrow> nat \<Rightarrow> search_page"
where
  "page_of post log text params k = resp_json (page_response post log text params k)"

text \<open>The sum of \<^verbatim>\<open>numberOfElements\<close> over the pages \<open>1, ..., k\<close>.\<close>

definition accumulated ::
  "(search_payload, search_page) upstream \<Rightarrow> search_payload request list \<Rightarrow> string \<Rightarrow>
   search_params \<Rightarrow> nat \<Rightarrow> int"
where
  "accumulated post log text params k =
     sum_list (map (\<lambda>j. numberOfElements (page_of post log text params j)) [1..<Suc k])"

text \<open>The effective target count of a search whose first page is neither empty nor last.\<close>

definition target_count ::
  "(search_payload, search_page) upstream \<Rightarrow> search_payload request list \<Rightarrow> string \<Rightarrow>
   search_params \<Rightarrow> int"
where
  "target_count post log text params =
     (if all_texts params then first_total post log text params else count params)"

section \<open>Auxiliary notions and example upstreams\<close>

text \<open>
  Every entry of the cache was stored for a call that binds a supported language
  code. The empty cache of a fresh process satisfies this, and \<open>get_word\<close>
  preserves it.
\<close>

definition cache_supported :: "(call \<times> word_result) list \<Rightarrow> bool" where
  "cache_supported cache =
     list_all (\<lambda>kv. case bind_call (fst kv) of
                       Inl e \<Rightarrow> False
                     | Inr (w, l, rest) \<Rightarrow> LANGUAGES l \<noteq> None) cache"

text \<open>
  A small dictionary upstream for concrete runs: it knows one word, and answers every
  other word with the empty list. The analyzer knows the lemma of one inflected form.
  The markup stripper of the concrete runs leaves its input alone.
\<close>

definition ex_dict :: "(dict_payload, dict_item list) upstream" where
  "ex_dict log req =
     \<lparr>status_code = 200, resp_text = [],
      resp_json = (if dp_word (snd req) = ''ukno''
                   then [\<lparr>body = ''~ okno; ~os'', srcWord = ''ukno''\<rparr>] else [])\<rparr>"

definition ex_analyze :: "string \<Rightarrow> wordform list" where
  "ex_analyze w = [\<lparr>lemma_of = (if w = ''uknoos'' then ''ukno'' else [])\<rparr>]"

definition ex_html :: "string \<Rightarrow> string" where
  "ex_html s = s"




text \<open>The dictionary request for a word in a resolved language.\<close>

definition dict_request :: "string \<Rightarrow> language \<Rightarrow> dict_payload request" where
  "dict_request w l =
     (''https://udmcorpus.udman.ru/api/public/dictionary/search'',
      \<lparr>dp_word = w, dp_lang_id = lang_id l\<rparr>)"

text \<open>What \<^verbatim>\<open>_process_response\<close> makes of one response item.\<close>

definition item_text :: "(string \<Rightarrow> string) \<Rightarrow> bool \<Rightarrow> dict_item \<Rightarrow> string" where
  "item_text html_text replace_tilde item =
     (if replace_tilde then str_replace_char CHR ''~'' (srcWord item) (html_text (body item))
      else html_text (body item))"

text \<open>
  A second dictionary upstream for concrete runs: the entry found for the lemma \<open>pi\<close>
  comes with a neighbouring entry whose source word is another word.
\<close>

definition ex_dict2 :: "(dict_payload, dict_item list) upstream" where
  "ex_dict2 log req =
     \<lparr>status_code = 200, resp_text = [],
      resp_json = (if dp_word (snd req) = ''pi''
                   then [\<lparr>body = ''~ syn'', srcWord = ''pi''\<rparr>,
                         \<lparr>body = ''~ detskiy'', srcWord = ''pinal''\<rparr>]
                   else [])\<rparr>"

definition ex_analyze2 :: "string \<Rightarrow> wordform list" where
  "ex_analyze2 w = [\<lparr>lemma_of = (if w = ''pios'' then ''pi'' else [])\<rparr>]"

text \<open>
  The effective target count of a search: \<^verbatim>\<open>totalElements\<close> of the first page when
  \<open>all_texts\<close> holds and the first page is neither empty nor last, the requested
  \<open>count\<close> otherwise.
\<close>

definition effective_target ::
  "(search_payload, search_page) upstream \<Rightarrow> search_payload request list \<Rightarrow> string \<Rightarrow>
   search_params \<Rightarrow> int"
where
  "effective_target post log text params =
     (if all_texts params \<and> \<not> empty_page (page_of post log text params 1) \<and>
         \<not> last_page (page_of post log text params 1)
      then totalElements (page_of post log text params 1) else count params)"

text \<open>The requests that a call has added to the log.\<close>

definition new_requests :: "'p request list \<Rightarrow> 'p request list \<Rightarrow> 'p request list" where
  "new_requests log log' = drop (length log) log'"

text \<open>
  A corpus upstream for concrete runs: five texts on three pages of at most two, the
  third page being the last one.
\<close>

definition ex_corpus :: "(search_payload, search_page) upstream" where
  "ex_corpus log req =
     \<lparr>status_code = 200, resp_text = [],
      resp_json =
        \<lparr>totalElements = 5,
         last_page = (3 \<le> page (snd req)),
         numberOfElements = (if page (snd req) < 3 then 2 else 1),
         empty_page = False,
         content =
           (if page (snd req) = 1 then [\<lparr>item_body = ''t1''\<rparr>, \<lparr>item_body = ''t2''\<rparr>]
            else if page (snd req) = 2 then [\<lparr>item_body = ''t3''\<rparr>, \<lparr>item_body = ''t4''\<rparr>]
            else [\<lparr>item_body = ''t5''\<rparr>])\<rparr>\<rparr>"

text \<open>
  A corpus upstream whose first page reports \<^verbatim>\<open>empty\<close> without reporting \<^verbatim>\<open>last\<close>;
  its second page is the first to report \<^verbatim>\<open>last\<close>.
\<close>

definition ex_empty_first :: "(search_payload, search_page) upstream" where
  "ex_empty_first log req =
     \<lparr>status_code = 200, resp_text = [],
      resp_json = \<lparr>totalElements = 0, last_page = (2 \<le> page (snd req)),
                   numberOfElements = 0, empty_page = True, content = []\<rparr>\<rparr>"

text \<open>A corpus upstream that finds nothing.\<close>

definition ex_nothing :: "(search_payload, search_page) upstream" where
  "ex_nothing log req =
     \<lparr>status_code = 200, resp_text = [],
      resp_json = \<lparr>totalElements = 0, last_page = True, numberOfElements = 0,
                   empty_page = True, content = []\<rparr>\<rparr>"

text \<open>The caller's \<^verbatim>\<open>params\<close> dictionary with no key.\<close>

definition no_params :: caller_params where
  "no_params =
     \<lparr>given_count = None, given_all_texts = None, given_return_full_json = None,
      given_full_compare = None, given_full_text_mode = None, given_page = None,
      given_per_page = None, given_rows_count = None\<rparr>"

text \<open>A corpus upstream whose pages never count an element and never report \<^verbatim>\<open>last\<close>.\<close>

definition ex_endless :: "(search_payload, search_page) upstream" where
  "ex_endless log req =
     \<lparr>status_code = 200, resp_text = [],
      resp_json = \<lparr>totalElements = 1, last_page = False, numberOfElements = 0,
                   empty_page = False, content = []\<rparr>\<rparr>"
section \<open>Properties of the dictionary service\<close>

lemma LANGUAGES_None: "lang \<noteq> ''udm'' \<Longrightarrow> lang \<noteq> ''rus'' \<Longrightarrow> LANGUAGES lang = None"
  by (simp add: LANGUAGES_def)

lemma LANGUAGES_udm: "LANGUAGES ''udm'' = Some \<lparr>lang_id = 1, lang_code = ''udm''\<rparr>"
  by (simp add: LANGUAGES_def)

lemma LANGUAGES_rus: "LANGUAGES ''rus'' = Some \<lparr>lang_id = 2, lang_code = ''rus''\<rparr>"
  by (simp add: LANGUAGES_def)

lemma get_word_body_unsupported:
  "LANGUAGES lang = None \<Longrightarrow>
   get_word_body post analyze_words html_text word lang rt rfj lem log = (Inl (ValueError lang), log)"
  by (simp add: get_word_body_def)

lemma get_word_body_first_request:
  assumes "LANGUAGES lang = Some l"
  shows "\<exists>rest. snd (get_word_body post analyze_words html_text word lang rt rfj lem log) =
           log @ (''https://udmcorpus.udman.ru/api/public/dictionary/search'',
                  \<lparr>dp_word = word, dp_lang_id = lang_id l\<rparr>) # rest"
  using assms
  by (auto simp: get_word_body_def make_request_def Let_def split: sum.splits list.splits prod.splits)

lemma lru_cache_set:
  "set (fst (snd (lru_cache n f k (c, s)))) \<subseteq>
     set c \<union> (case fst (lru_cache n f k (c, s)) of Inl e \<Rightarrow> {} | Inr v \<Rightarrow> {(k, v)})"
  by (auto simp: lru_cache_def split: option.splits prod.splits sum.splits dest: in_set_takeD)

lemma lru_cache_miss:
  "map_of c k = None \<Longrightarrow> fst (lru_cache n f k (c, s)) = fst (f k s) \<and>
     snd (snd (lru_cache n f k (c, s))) = snd (f k s)"
  by (auto simp: lru_cache_def split: prod.splits sum.splits)


lemma cache_supported_empty: "cache_supported []"
  by (simp add: cache_supported_def)

lemma cache_supported_map_of:
  assumes "cache_supported c" and "map_of c k = Some v"
  shows "\<exists>w l rt rfj lem. bind_call k = Inr (w, l, rt, rfj, lem) \<and> LANGUAGES l \<noteq> None"
proof -
  from assms(2) have "(k, v) \<in> set c" by (rule map_of_SomeD)
  with assms(1) have ok: "case bind_call k of Inl e \<Rightarrow> False
      | Inr (w, l, rest) \<Rightarrow> LANGUAGES l \<noteq> None"
    unfolding cache_supported_def list_all_iff by fastforce
  show ?thesis
  proof (cases "bind_call k")
    case (Inl e)
    with ok show ?thesis by simp
  next
    case (Inr b)
    obtain w l rt rfj lem where "b = (w, l, rt, rfj, lem)" by (cases b) auto
    with Inr ok show ?thesis by simp
  qed
qed

lemma get_word_wrapped_returns:
  assumes "fst (get_word_wrapped post an ht c log) = Inr v"
  shows "\<exists>w l rt rfj lem. bind_call c = Inr (w, l, rt, rfj, lem) \<and> LANGUAGES l \<noteq> None"
proof (cases "bind_call c")
  case (Inl e)
  with assms show ?thesis by (simp add: get_word_wrapped_def)
next
  case (Inr b)
  obtain w l rt rfj lem where b: "b = (w, l, rt, rfj, lem)" by (cases b) auto
  from assms Inr b have "fst (get_word_body post an ht w l rt rfj lem log) = Inr v"
    by (simp add: get_word_wrapped_def)
  then have "LANGUAGES l \<noteq> None"
    by (cases "LANGUAGES l") (auto simp: get_word_body_unsupported)
  with Inr b show ?thesis by simp
qed

lemma get_word_preserves_supported:
  assumes "cache_supported cache"
  shows "cache_supported (fst (snd (get_word post an ht c (cache, log))))"
proof -
  let ?f = "get_word_wrapped post an ht"
  let ?r = "lru_cache 128 ?f c (cache, log)"
  have new: "\<exists>w l rt rfj lem. bind_call c = Inr (w, l, rt, rfj, lem) \<and> LANGUAGES l \<noteq> None"
    if "fst ?r = Inr v" for v
  proof (cases "map_of cache c")
    case None
    from lru_cache_miss[OF None, of 128 ?f log] that
    have "fst (get_word_wrapped post an ht c log) = Inr v" by simp
    then show ?thesis by (rule get_word_wrapped_returns)
  next
    case (Some u)
    from cache_supported_map_of[OF assms Some] show ?thesis .
  qed
  have sub: "set (fst (snd ?r)) \<subseteq>
      set cache \<union> (case fst ?r of Inl e \<Rightarrow> {} | Inr v \<Rightarrow> {(c, v)})"
    by (rule lru_cache_set)
  show ?thesis
    unfolding get_word_def cache_supported_def list_all_iff
  proof
    fix kv assume "kv \<in> set (fst (snd ?r))"
    with sub have "kv \<in> set cache \<or> (\<exists>v. fst ?r = Inr v \<and> kv = (c, v))"
      by (auto split: sum.splits)
    then show "case bind_call (fst kv) of Inl e \<Rightarrow> False
        | Inr (w, l, rest) \<Rightarrow> LANGUAGES l \<noteq> None"
    proof
      assume "kv \<in> set cache"
      with assms show ?thesis unfolding cache_supported_def list_all_iff by blast
    next
      assume "\<exists>v. fst ?r = Inr v \<and> kv = (c, v)"
      then obtain v where "fst ?r = Inr v" "kv = (c, v)" by blast
      with new[of v] show ?thesis by auto
    qed
  qed
qed

lemma get_word_unsupported:
  assumes "cache_supported cache" and "bind_call c = Inr (word, lang, rt, rfj, lem)"
    and "LANGUAGES lang = None"
  shows "get_word post an ht c (cache, log) = (Inl (ValueError lang), cache, log)"
proof -
  have "map_of cache c = None"
  proof (cases "map_of cache c")
    case (Some v)
    from cache_supported_map_of[OF assms(1) Some] assms(2,3) show ?thesis by simp
  qed simp
  then show ?thesis using assms(2,3)
    by (simp add: get_word_def lru_cache_def get_word_wrapped_def get_word_body_unsupported)
qed

lemma bind_call_all_positional:
  "bind_call \<lparr>args = P5 word lang rt rfj lem, kwds = []\<rparr> = Inr (word, lang, rt, rfj, lem)"
  by (simp add: bind_call_def)
text \<open>
  Claim C5. A language code outside the registry \<open>{udm, rus}\<close> makes the lookup fail
  with \<open>ValueError\<close> and the request log is left as it was: no request is sent. This
  holds of the function body, of the cached \<open>get_word\<close> for every way of writing the
  call, and of the facade \<open>search_word\<close>, in every cache state the client can
  reach. The codes \<open>udm\<close> and \<open>rus\<close> resolve to the identifiers 1 and 2, and for
  them the lookup goes on: its first request carries the word and that identifier.
\<close>

theorem C5_language_registry:
  "(lang \<noteq> ''udm'' \<and> lang \<noteq> ''rus'' \<longrightarrow>
      get_word_body post analyze_words html_text word lang rt rfj lem log =
        (Inl (ValueError lang), log) \<and>
      (cache_supported cache \<and> bind_call c = Inr (word, lang, rt, rfj, lem) \<longrightarrow>
         get_word post analyze_words html_text c (cache, log) =
           (Inl (ValueError lang), cache, log)) \<and>
      (cache_supported cache \<longrightarrow>
         search_word post analyze_words html_text word lang rt rfj lem (cache, log) =
           (Inl (ValueError lang), cache, log))) \<and>
   map_option lang_id (LANGUAGES ''udm'') = Some 1 \<and>
   map_option lang_id (LANGUAGES ''rus'') = Some 2 \<and>
   (lang = ''udm'' \<or> lang = ''rus'' \<longrightarrow>
      (\<exists>rest. snd (get_word_body post analyze_words html_text word lang rt rfj lem log) =
         log @ (''https://udmcorpus.udman.ru/api/public/dictionary/search'',
                \<lparr>dp_word = word, dp_lang_id = (if lang = ''udm'' then 1 else 2)\<rparr>) # rest))"
proof -
  have a: "get_word_body post analyze_words html_text word lang rt rfj lem log =
        (Inl (ValueError lang), log) \<and>
      (cache_supported cache \<and> bind_call c = Inr (word, lang, rt, rfj, lem) \<longrightarrow>
         get_word post analyze_words html_text c (cache, log) =
           (Inl (ValueError lang), cache, log)) \<and>
      (cache_supported cache \<longrightarrow>
         search_word post analyze_words html_text word lang rt rfj lem (cache, log) =
           (Inl (ValueError lang), cache, log))"
    if "lang \<noteq> ''udm'' \<and> lang \<noteq> ''rus''"
  proof -
    from that have none: "LANGUAGES lang = None" by (simp add: LANGUAGES_None)
    have 1: "get_word_body post analyze_words html_text word lang rt rfj lem log =
        (Inl (ValueError lang), log)"
      by (rule get_word_body_unsupported[OF none])
    have 2: "get_word post analyze_words html_text c (cache, log) =
           (Inl (ValueError lang), cache, log)"
      if "cache_supported cache" "bind_call c = Inr (word, lang, rt, rfj, lem)"
      using that none by (rule get_word_unsupported)
    have 3: "search_word post analyze_words html_text word lang rt rfj lem (cache, log) =
           (Inl (ValueError lang), cache, log)" if "cache_supported cache"
      unfolding search_word_def
      using that bind_call_all_positional none by (rule get_word_unsupported)
    from 1 2 3 show ?thesis by blast
  qed
  have b: "map_option lang_id (LANGUAGES ''udm'') = Some 1" by (simp add: LANGUAGES_udm)
  have c: "map_option lang_id (LANGUAGES ''rus'') = Some 2" by (simp add: LANGUAGES_rus)
  have d: "\<exists>rest. snd (get_word_body post analyze_words html_text word lang rt rfj lem log) =
         log @ (''https://udmcorpus.udman.ru/api/public/dictionary/search'',
                \<lparr>dp_word = word, dp_lang_id = (if lang = ''udm'' then 1 else 2)\<rparr>) # rest"
    if "lang = ''udm'' \<or> lang = ''rus''"
    using that
      get_word_body_first_request[OF LANGUAGES_udm, of post analyze_words html_text word rt rfj lem log]
      get_word_body_first_request[OF LANGUAGES_rus, of post analyze_words html_text word rt rfj lem log]
    by auto
  from a b c d show ?thesis by blast
qed

text \<open>
  C5 on the example dictionary: an unsupported code through the body, through a call
  that passes the code by keyword, and through the facade; and the first request of a
  lookup in each supported language.
\<close>

theorem C5_language_registry_witness:
  "get_word_body ex_dict ex_analyze ex_html ''ukno'' ''eng'' False False False [] =
     (Inl (ValueError ''eng''), []) \<and>
   cache_supported [] \<and>
   bind_call \<lparr>args = P1 ''ukno'', kwds = [Kw_lang ''eng'']\<rparr> =
     Inr (''ukno'', ''eng'', False, False, False) \<and>
   get_word ex_dict ex_analyze ex_html \<lparr>args = P1 ''ukno'', kwds = [Kw_lang ''eng'']\<rparr> ([], []) =
     (Inl (ValueError ''eng''), [], []) \<and>
   search_word ex_dict ex_analyze ex_html ''ukno'' ''eng'' False False False ([], []) =
     (Inl (ValueError ''eng''), [], []) \<and>
   snd (get_word_body ex_dict ex_analyze ex_html ''ukno'' ''udm'' False False False []) =
     [(''https://udmcorpus.udman.ru/api/public/dictionary/search'',
       \<lparr>dp_word = ''ukno'', dp_lang_id = 1\<rparr>)] \<and>
   snd (get_word_body ex_dict ex_analyze ex_html ''okno'' ''rus'' False False False []) =
     [(''https://udmcorpus.udman.ru/api/public/dictionary/search'',
       \<lparr>dp_word = ''okno'', dp_lang_id = 2\<rparr>)]"
proof -
  have sup: "cache_supported []" by (rule cache_supported_empty)
  have bnd: "bind_call \<lparr>args = P1 ''ukno'', kwds = [Kw_lang ''eng'']\<rparr> =
     Inr (''ukno'', ''eng'', False, False, False)"
    by (simp add: bind_call_def)
  have a: "get_word_body ex_dict ex_analyze ex_html ''ukno'' ''eng'' False False False [] =
     (Inl (ValueError ''eng''), []) \<and>
     get_word ex_dict ex_analyze ex_html \<lparr>args = P1 ''ukno'', kwds = [Kw_lang ''eng'']\<rparr> ([], []) =
     (Inl (ValueError ''eng''), [], []) \<and>
     search_word ex_dict ex_analyze ex_html ''ukno'' ''eng'' False False False ([], []) =
     (Inl (ValueError ''eng''), [], [])"
    using C5_language_registry[of "''eng''" ex_dict ex_analyze ex_html "''ukno''" False False False
        "[]" "[]" "\<lparr>args = P1 ''ukno'', kwds = [Kw_lang ''eng'']\<rparr>"] sup bnd
    by simp
  have b: "snd (get_word_body ex_dict ex_analyze ex_html ''ukno'' ''udm'' False False False []) =
     [(''https://udmcorpus.udman.ru/api/public/dictionary/search'',
       \<lparr>dp_word = ''ukno'', dp_lang_id = 1\<rparr>)]"
    by (simp add: get_word_body_def LANGUAGES_udm make_request_def ex_dict_def get_word_return_def)
  have c: "snd (get_word_body ex_dict ex_analyze ex_html ''okno'' ''rus'' False False False []) =
     [(''https://udmcorpus.udman.ru/api/public/dictionary/search'',
       \<lparr>dp_word = ''okno'', dp_lang_id = 2\<rparr>)]"
    by (simp add: get_word_body_def LANGUAGES_rus make_request_def ex_dict_def)
  from a b c sup bnd show ?thesis by simp
qed
lemma process_items_map:
  "process_items html_text rt results response =
     results @ map (item_text html_text rt) response"
  by (induction response arbitrary: results) (simp_all add: item_text_def Let_def)

lemma process_response_map:
  "process_response html_text response w rt = map (item_text html_text rt) response"
  by (simp add: process_response_def process_items_map)

lemma str_replace_char_free:
  "old \<notin> set new \<Longrightarrow> old \<notin> set (str_replace_char old new s)"
  by (induction s) (auto simp: str_replace_char_def)

lemma make_request_dict:
  "make_request post ''dictionary/search'' \<lparr>dp_word = w, dp_lang_id = lang_id l\<rparr> log =
     (if status_code (post log (dict_request w l)) \<noteq> 200
      then Inl (APIError (status_code (post log (dict_request w l)))
                  (resp_text (post log (dict_request w l))))
      else Inr (resp_json (post log (dict_request w l))),
      log @ [dict_request w l])"
  by (simp add: make_request_def dict_request_def Let_def)

lemma get_word_body_found:
  assumes "LANGUAGES lang = Some l"
    and "status_code (post log (dict_request word l)) = 200"
    and "resp_json (post log (dict_request word l)) \<noteq> []"
  shows "get_word_body post analyze_words html_text word lang rt rfj lem log =
     (Inr (get_word_return html_text (resp_json (post log (dict_request word l))) word rt rfj),
      log @ [dict_request word l])"
  using assms by (simp add: get_word_body_def make_request_dict)

lemma get_word_body_no_fallback:
  assumes "LANGUAGES lang = Some l"
    and "status_code (post log (dict_request word l)) = 200"
    and "resp_json (post log (dict_request word l)) = []"
    and "\<not> lem"
  shows "get_word_body post analyze_words html_text word lang rt rfj lem log =
     (Inl (WordNotFoundError word), log @ [dict_request word l])"
  using assms by (simp add: get_word_body_def make_request_dict)

lemma get_word_body_empty_lemma:
  assumes "LANGUAGES lang = Some l"
    and "status_code (post log (dict_request word l)) = 200"
    and "resp_json (post log (dict_request word l)) = []"
    and "lem" and "analyze_words word = a # as" and "lemma_of a = []"
  shows "get_word_body post analyze_words html_text word lang rt rfj lem log =
     (Inl (WordNotFoundError word), log @ [dict_request word l])"
  using assms by (simp add: get_word_body_def make_request_dict)

lemma get_word_body_retry:
  assumes "LANGUAGES lang = Some l"
    and "status_code (post log (dict_request word l)) = 200"
    and "resp_json (post log (dict_request word l)) = []"
    and "lem" and "analyze_words word = a # as" and "lemma_of a \<noteq> []"
  shows "get_word_body post analyze_words html_text word lang rt rfj lem log =
     (let r2 = post (log @ [dict_request word l]) (dict_request (lemma_of a) l)
      in if status_code r2 \<noteq> 200 then Inl (APIError (status_code r2) (resp_text r2))
         else if resp_json r2 = [] then Inl (WordNotFoundError word)
         else Inr (get_word_return html_text (resp_json r2) (lemma_of a) rt rfj),
      log @ [dict_request word l, dict_request (lemma_of a) l])"
  using assms by (simp add: get_word_body_def make_request_dict Let_def)

text \<open>
  Claim C6. One run of the body of \<open>get_word\<close> sends at most two dictionary requests.
  When the first response is empty: without \<open>lemmatize_if_not_found\<close> the run raises
  \<open>WordNotFoundError\<close> after that one request; with it and an empty lemma it raises
  \<open>WordNotFoundError\<close> with no second request; with a non-empty lemma exactly one retry
  is sent, with the lemma in place of the word, and \<open>WordNotFoundError\<close> is raised
  exactly when the retry response is empty as well.
\<close>

theorem C6_lemma_fallback:
  "(\<exists>new. snd (get_word_body post analyze_words html_text word lang rt rfj lem log) = log @ new \<and>
      length new \<le> 2) \<and>
   (LANGUAGES lang = Some l \<and> status_code (post log (dict_request word l)) = 200 \<and>
    resp_json (post log (dict_request word l)) = [] \<longrightarrow>
      (\<not> lem \<longrightarrow>
         get_word_body post analyze_words html_text word lang rt rfj lem log =
           (Inl (WordNotFoundError word), log @ [dict_request word l])) \<and>
      (lem \<and> analyze_words word = a # as \<and> lemma_of a = [] \<longrightarrow>
         get_word_body post analyze_words html_text word lang rt rfj lem log =
           (Inl (WordNotFoundError word), log @ [dict_request word l])) \<and>
      (lem \<and> analyze_words word = a # as \<and> lemma_of a \<noteq> [] \<longrightarrow>
         snd (get_word_body post analyze_words html_text word lang rt rfj lem log) =
           log @ [dict_request word l, dict_request (lemma_of a) l] \<and>
         (fst (get_word_body post analyze_words html_text word lang rt rfj lem log) =
            Inl (WordNotFoundError word) \<longleftrightarrow>
          status_code (post (log @ [dict_request word l]) (dict_request (lemma_of a) l)) = 200 \<and>
          resp_json (post (log @ [dict_request word l]) (dict_request (lemma_of a) l)) = [])))"
proof (intro conjI impI)
  show "\<exists>new. snd (get_word_body post analyze_words html_text word lang rt rfj lem log) = log @ new \<and>
      length new \<le> 2"
    by (auto simp: get_word_body_def make_request_def Let_def
        split: option.splits sum.splits list.splits prod.splits)
next
  assume h: "LANGUAGES lang = Some l \<and> status_code (post log (dict_request word l)) = 200 \<and>
    resp_json (post log (dict_request word l)) = []"
  {
    assume "\<not> lem"
    with h show "get_word_body post analyze_words html_text word lang rt rfj lem log =
           (Inl (WordNotFoundError word), log @ [dict_request word l])"
      by (simp add: get_word_body_no_fallback)
  }
  {
    assume "lem \<and> analyze_words word = a # as \<and> lemma_of a = []"
    with h show "get_word_body post analyze_words html_text word lang rt rfj lem log =
           (Inl (WordNotFoundError word), log @ [dict_request word l])"
      by (simp add: get_word_body_empty_lemma)
  }
  {
    assume r: "lem \<and> analyze_words word = a # as \<and> lemma_of a \<noteq> []"
    from h r have eq: "get_word_body post analyze_words html_text word lang rt rfj lem log =
     (let r2 = post (log @ [dict_request word l]) (dict_request (lemma_of a) l)
      in if status_code r2 \<noteq> 200 then Inl (APIError (status_code r2) (resp_text r2))
         else if resp_json r2 = [] then Inl (WordNotFoundError word)
         else Inr (get_word_return html_text (resp_json r2) (lemma_of a) rt rfj),
      log @ [dict_request word l, dict_request (lemma_of a) l])"
      by (intro get_word_body_retry) simp_all
    show "snd (get_word_body post analyze_words html_text word lang rt rfj lem log) =
           log @ [dict_request word l, dict_request (lemma_of a) l]"
      by (simp add: eq)
    show "fst (get_word_body post analyze_words html_text word lang rt rfj lem log) =
            Inl (WordNotFoundError word) \<longleftrightarrow>
          status_code (post (log @ [dict_request word l]) (dict_request (lemma_of a) l)) = 200 \<and>
          resp_json (post (log @ [dict_request word l]) (dict_request (lemma_of a) l)) = []"
      by (simp add: eq Let_def)
  }
qed

text \<open>The four cases of C6 on the example dictionary.\<close>

theorem C6_lemma_fallback_witness:
  "get_word_body ex_dict ex_analyze ex_html ''zzz'' ''udm'' False False False [] =
     (Inl (WordNotFoundError ''zzz''),
      [dict_request ''zzz'' \<lparr>lang_id = 1, lang_code = ''udm''\<rparr>]) \<and>
   get_word_body ex_dict ex_analyze ex_html ''zzz'' ''udm'' False False True [] =
     (Inl (WordNotFoundError ''zzz''),
      [dict_request ''zzz'' \<lparr>lang_id = 1, lang_code = ''udm''\<rparr>]) \<and>
   snd (get_word_body ex_dict ex_analyze ex_html ''uknoos'' ''udm'' False False True []) =
     [dict_request ''uknoos'' \<lparr>lang_id = 1, lang_code = ''udm''\<rparr>,
      dict_request ''ukno'' \<lparr>lang_id = 1, lang_code = ''udm''\<rparr>] \<and>
   fst (get_word_body ex_dict ex_analyze ex_html ''uknoos'' ''udm'' False False True []) \<noteq>
     Inl (WordNotFoundError ''uknoos'') \<and>
   snd (get_word_body ex_dict ex_analyze2 ex_html ''pios'' ''udm'' False False True []) =
     [dict_request ''pios'' \<lparr>lang_id = 1, lang_code = ''udm''\<rparr>,
      dict_request ''pi'' \<lparr>lang_id = 1, lang_code = ''udm''\<rparr>] \<and>
   fst (get_word_body ex_dict ex_analyze2 ex_html ''pios'' ''udm'' False False True []) =
     Inl (WordNotFoundError ''pios'')"
proof -
  let ?l = "\<lparr>lang_id = 1, lang_code = ''udm''\<rparr>"
  note i1 = C6_lemma_fallback[of ex_dict ex_analyze ex_html "''zzz''" "''udm''" False False False "[]"
      ?l "\<lparr>lemma_of = []\<rparr>" "[]"]
  note i2 = C6_lemma_fallback[of ex_dict ex_analyze ex_html "''zzz''" "''udm''" False False True "[]"
      ?l "\<lparr>lemma_of = []\<rparr>" "[]"]
  note i3 = C6_lemma_fallback[of ex_dict ex_analyze ex_html "''uknoos''" "''udm''" False False True "[]"
      ?l "\<lparr>lemma_of = ''ukno''\<rparr>" "[]"]
  note i4 = C6_lemma_fallback[of ex_dict ex_analyze2 ex_html "''pios''" "''udm''" False False True "[]"
      ?l "\<lparr>lemma_of = ''pi''\<rparr>" "[]"]
  have c1: "get_word_body ex_dict ex_analyze ex_html ''zzz'' ''udm'' False False False [] =
     (Inl (WordNotFoundError ''zzz''), [dict_request ''zzz'' ?l])"
    using i1 by (simp add: LANGUAGES_udm ex_dict_def dict_request_def)
  have c2: "get_word_body ex_dict ex_analyze ex_html ''zzz'' ''udm'' False False True [] =
     (Inl (WordNotFoundError ''zzz''), [dict_request ''zzz'' ?l])"
    using i2 by (simp add: LANGUAGES_udm ex_dict_def ex_analyze_def dict_request_def)
  have c3: "snd (get_word_body ex_dict ex_analyze ex_html ''uknoos'' ''udm'' False False True []) =
     [dict_request ''uknoos'' ?l, dict_request ''ukno'' ?l] \<and>
     fst (get_word_body ex_dict ex_analyze ex_html ''uknoos'' ''udm'' False False True []) \<noteq>
     Inl (WordNotFoundError ''uknoos'')"
    using i3 by (simp add: LANGUAGES_udm ex_dict_def ex_analyze_def dict_request_def)
  have c4: "snd (get_word_body ex_dict ex_analyze2 ex_html ''pios'' ''udm'' False False True []) =
     [dict_request ''pios'' ?l, dict_request ''pi'' ?l] \<and>
     fst (get_word_body ex_dict ex_analyze2 ex_html ''pios'' ''udm'' False False True []) =
     Inl (WordNotFoundError ''pios'')"
    using i4 by (simp add: LANGUAGES_udm ex_dict_def ex_analyze2_def dict_request_def)
  from c1 c2 c3 c4 show ?thesis by simp
qed

lemma item_text_tilde_free:
  "CHR ''~'' \<notin> set (srcWord item) \<Longrightarrow> CHR ''~'' \<notin> set (item_text html_text True item)"
  by (simp add: item_text_def str_replace_char_free)

text \<open>
  Claim C7. \<^verbatim>\<open>_process_response\<close> returns one string per response item, in response
  order: the stripped body, with every tilde replaced by the item's own \<open>srcWord\<close> when
  \<open>replace_tilde\<close> holds. When no \<open>srcWord\<close> contains a tilde, no returned string does.
  With \<open>return_full_json\<close> false, \<open>get_word\<close> returns exactly these strings for a
  non-empty first response, and for a non-empty retry response after an empty first one.
\<close>

theorem C7_process_response:
  "process_response html_text response w rt = map (item_text html_text rt) response \<and>
   length (process_response html_text response w rt) = length response \<and>
   ((\<forall>item \<in> set response. CHR ''~'' \<notin> set (srcWord item)) \<longrightarrow>
      (\<forall>s \<in> set (process_response html_text response w True). CHR ''~'' \<notin> set s)) \<and>
   (LANGUAGES lang = Some l \<and> status_code (post log (dict_request word l)) = 200 \<and>
    resp_json (post log (dict_request word l)) \<noteq> [] \<longrightarrow>
      get_word_body post analyze_words html_text word lang rt False lem log =
        (Inr (Texts (map (item_text html_text rt) (resp_json (post log (dict_request word l))))),
         log @ [dict_request word l])) \<and>
   (LANGUAGES lang = Some l \<and> status_code (post log (dict_request word l)) = 200 \<and>
    resp_json (post log (dict_request word l)) = [] \<and>
    analyze_words word = a # as \<and> lemma_of a \<noteq> [] \<and>
    status_code (post (log @ [dict_request word l]) (dict_request (lemma_of a) l)) = 200 \<and>
    resp_json (post (log @ [dict_request word l]) (dict_request (lemma_of a) l)) \<noteq> [] \<longrightarrow>
      get_word_body post analyze_words html_text word lang rt False True log =
        (Inr (Texts (map (item_text html_text rt)
                (resp_json (post (log @ [dict_request word l]) (dict_request (lemma_of a) l))))),
         log @ [dict_request word l, dict_request (lemma_of a) l]))"
proof (intro conjI impI)
  show "process_response html_text response w rt = map (item_text html_text rt) response"
    by (rule process_response_map)
  show "length (process_response html_text response w rt) = length response"
    by (simp add: process_response_map)
next
  assume "\<forall>item \<in> set response. CHR ''~'' \<notin> set (srcWord item)"
  then show "\<forall>s \<in> set (process_response html_text response w True). CHR ''~'' \<notin> set s"
    by (auto simp: process_response_map dest: item_text_tilde_free)
next
  assume "LANGUAGES lang = Some l \<and> status_code (post log (dict_request word l)) = 200 \<and>
    resp_json (post log (dict_request word l)) \<noteq> []"
  then show "get_word_body post analyze_words html_text word lang rt False lem log =
        (Inr (Texts (map (item_text html_text rt) (resp_json (post log (dict_request word l))))),
         log @ [dict_request word l])"
    by (simp add: get_word_body_found get_word_return_def process_response_map)
next
  assume h: "LANGUAGES lang = Some l \<and> status_code (post log (dict_request word l)) = 200 \<and>
    resp_json (post log (dict_request word l)) = [] \<and>
    analyze_words word = a # as \<and> lemma_of a \<noteq> [] \<and>
    status_code (post (log @ [dict_request word l]) (dict_request (lemma_of a) l)) = 200 \<and>
    resp_json (post (log @ [dict_request word l]) (dict_request (lemma_of a) l)) \<noteq> []"
  then have "get_word_body post analyze_words html_text word lang rt False True log =
     (let r2 = post (log @ [dict_request word l]) (dict_request (lemma_of a) l)
      in if status_code r2 \<noteq> 200 then Inl (APIError (status_code r2) (resp_text r2))
         else if resp_json r2 = [] then Inl (WordNotFoundError word)
         else Inr (get_word_return html_text (resp_json r2) (lemma_of a) rt False),
      log @ [dict_request word l, dict_request (lemma_of a) l])"
    by (intro get_word_body_retry) simp_all
  with h show "get_word_body post analyze_words html_text word lang rt False True log =
        (Inr (Texts (map (item_text html_text rt)
                (resp_json (post (log @ [dict_request word l]) (dict_request (lemma_of a) l))))),
         log @ [dict_request word l, dict_request (lemma_of a) l])"
    by (simp add: Let_def get_word_return_def process_response_map)
qed

text \<open>C7 on the example dictionaries, on the direct path and on the fallback path.\<close>

theorem C7_process_response_witness:
  "get_word_body ex_dict ex_analyze ex_html ''ukno'' ''udm'' True False False [] =
     (Inr (Texts [''ukno okno; uknoos'']),
      [dict_request ''ukno'' \<lparr>lang_id = 1, lang_code = ''udm''\<rparr>]) \<and>
   get_word_body ex_dict ex_analyze ex_html ''ukno'' ''udm'' False False False [] =
     (Inr (Texts [''~ okno; ~os'']),
      [dict_request ''ukno'' \<lparr>lang_id = 1, lang_code = ''udm''\<rparr>]) \<and>
   get_word_body ex_dict2 ex_analyze2 ex_html ''pios'' ''udm'' True False True [] =
     (Inr (Texts [''pi syn'', ''pinal detskiy'']),
      [dict_request ''pios'' \<lparr>lang_id = 1, lang_code = ''udm''\<rparr>,
       dict_request ''pi'' \<lparr>lang_id = 1, lang_code = ''udm''\<rparr>]) \<and>
   list_all (\<lambda>s. CHR ''~'' \<notin> set s)
     (process_response ex_html
        [\<lparr>body = ''~ syn'', srcWord = ''pi''\<rparr>, \<lparr>body = ''~ detskiy'', srcWord = ''pinal''\<rparr>]
        ''pios'' True)"
proof -
  let ?l = "\<lparr>lang_id = 1, lang_code = ''udm''\<rparr>"
  let ?items = "[\<lparr>body = ''~ syn'', srcWord = ''pi''\<rparr>, \<lparr>body = ''~ detskiy'', srcWord = ''pinal''\<rparr>]"
  note i1 = C7_process_response[of ex_html ?items "''pios''" True "''udm''" ?l ex_dict "[]" "''ukno''"
      ex_analyze False "\<lparr>lemma_of = []\<rparr>" "[]"]
  note i2 = C7_process_response[of ex_html ?items "''pios''" False "''udm''" ?l ex_dict "[]" "''ukno''"
      ex_analyze False "\<lparr>lemma_of = []\<rparr>" "[]"]
  note i3 = C7_process_response[of ex_html ?items "''pios''" True "''udm''" ?l ex_dict2 "[]" "''pios''"
      ex_analyze2 False "\<lparr>lemma_of = ''pi''\<rparr>" "[]"]
  have c1: "get_word_body ex_dict ex_analyze ex_html ''ukno'' ''udm'' True False False [] =
     (Inr (Texts [''ukno okno; uknoos'']), [dict_request ''ukno'' ?l])"
    using i1
    by (simp add: LANGUAGES_udm ex_dict_def dict_request_def item_text_def ex_html_def
        str_replace_char_def)
  have c2: "get_word_body ex_dict ex_analyze ex_html ''ukno'' ''udm'' False False False [] =
     (Inr (Texts [''~ okno; ~os'']), [dict_request ''ukno'' ?l])"
    using i2
    by (simp add: LANGUAGES_udm ex_dict_def dict_request_def item_text_def ex_html_def)
  have c3: "get_word_body ex_dict2 ex_analyze2 ex_html ''pios'' ''udm'' True False True [] =
     (Inr (Texts [''pi syn'', ''pinal detskiy'']),
      [dict_request ''pios'' ?l, dict_request ''pi'' ?l])"
    using i3
    by (simp add: LANGUAGES_udm ex_dict2_def ex_analyze2_def dict_request_def item_text_def
        ex_html_def str_replace_char_def)
  have c4: "list_all (\<lambda>s. CHR ''~'' \<notin> set s) (process_response ex_html ?items ''pios'' True)"
    using i3 by (simp add: list_all_iff)
  from c1 c2 c3 c4 show ?thesis by simp
qed
text \<open>
  Claim C8 as stated fails. The word \<open>pios\<close> is not found, its lemma \<open>pi\<close> is, and the
  retry response holds a second entry whose \<open>srcWord\<close> is \<open>pinal\<close>. The tilde of that
  entry is replaced by \<open>pinal\<close>, not by the lemma.
\<close>

theorem C8_tilde_word_counterexample:
  "resp_json (ex_dict2 [] (dict_request ''pios'' \<lparr>lang_id = 1, lang_code = ''udm''\<rparr>)) = [] \<and>
   map lemma_of (ex_analyze2 ''pios'') = [''pi''] \<and>
   resp_json (ex_dict2 [dict_request ''pios'' \<lparr>lang_id = 1, lang_code = ''udm''\<rparr>]
                (dict_request ''pi'' \<lparr>lang_id = 1, lang_code = ''udm''\<rparr>)) =
     [\<lparr>body = ''~ syn'', srcWord = ''pi''\<rparr>, \<lparr>body = ''~ detskiy'', srcWord = ''pinal''\<rparr>] \<and>
   fst (get_word_body ex_dict2 ex_analyze2 ex_html ''pios'' ''udm'' True False True []) =
     Inr (Texts [''pi syn'', ''pinal detskiy'']) \<and>
   fst (get_word_body ex_dict2 ex_analyze2 ex_html ''pios'' ''udm'' True False True []) \<noteq>
     Inr (Texts (map (\<lambda>item. str_replace_char CHR ''~'' ''pi'' (ex_html (body item)))
            [\<lparr>body = ''~ syn'', srcWord = ''pi''\<rparr>, \<lparr>body = ''~ detskiy'', srcWord = ''pinal''\<rparr>]))"
  by (simp add: get_word_body_def LANGUAGES_udm make_request_def ex_dict2_def ex_analyze2_def
      dict_request_def get_word_return_def process_response_def ex_html_def str_replace_char_def)

text \<open>
  Claim C8, amended. After a successful lemma fallback with \<open>replace_tilde\<close> true, every
  tilde of a returned string is replaced by the \<open>srcWord\<close> of the retry-response
  item the string comes from: neither the lemma nor the original word is used.
  \<^verbatim>\<open>_process_response\<close> returns the same strings whatever word it is handed. The
  returned strings are the ones with the lemma in place of the tildes when every
  item's \<open>srcWord\<close> is the lemma.
\<close>

theorem C8_tilde_source_word:
  "LANGUAGES lang = Some l \<and> status_code (post log (dict_request word l)) = 200 \<and>
   resp_json (post log (dict_request word l)) = [] \<and>
   analyze_words word = a # as \<and> lemma_of a \<noteq> [] \<and>
   status_code (post (log @ [dict_request word l]) (dict_request (lemma_of a) l)) = 200 \<and>
   resp_json (post (log @ [dict_request word l]) (dict_request (lemma_of a) l)) \<noteq> [] \<longrightarrow>
     get_word_body post analyze_words html_text word lang True False True log =
       (Inr (Texts (map (\<lambda>item. str_replace_char CHR ''~'' (srcWord item) (html_text (body item)))
               (resp_json (post (log @ [dict_request word l]) (dict_request (lemma_of a) l))))),
        log @ [dict_request word l, dict_request (lemma_of a) l]) \<and>
     (\<forall>w. process_response html_text
            (resp_json (post (log @ [dict_request word l]) (dict_request (lemma_of a) l))) w True =
          map (\<lambda>item. str_replace_char CHR ''~'' (srcWord item) (html_text (body item)))
            (resp_json (post (log @ [dict_request word l]) (dict_request (lemma_of a) l)))) \<and>
     (list_all (\<lambda>item. srcWord item = lemma_of a)
        (resp_json (post (log @ [dict_request word l]) (dict_request (lemma_of a) l))) \<longrightarrow>
      fst (get_word_body post analyze_words html_text word lang True False True log) =
        Inr (Texts (map (\<lambda>item. str_replace_char CHR ''~'' (lemma_of a) (html_text (body item)))
               (resp_json (post (log @ [dict_request word l]) (dict_request (lemma_of a) l))))))"
proof (intro impI)
  let ?items = "resp_json (post (log @ [dict_request word l]) (dict_request (lemma_of a) l))"
  let ?src = "\<lambda>item. str_replace_char CHR ''~'' (srcWord item) (html_text (body item))"
  assume h: "LANGUAGES lang = Some l \<and> status_code (post log (dict_request word l)) = 200 \<and>
   resp_json (post log (dict_request word l)) = [] \<and>
   analyze_words word = a # as \<and> lemma_of a \<noteq> [] \<and>
   status_code (post (log @ [dict_request word l]) (dict_request (lemma_of a) l)) = 200 \<and>
   ?items \<noteq> []"
  then have "get_word_body post analyze_words html_text word lang True False True log =
     (let r2 = post (log @ [dict_request word l]) (dict_request (lemma_of a) l)
      in if status_code r2 \<noteq> 200 then Inl (APIError (status_code r2) (resp_text r2))
         else if resp_json r2 = [] then Inl (WordNotFoundError word)
         else Inr (get_word_return html_text (resp_json r2) (lemma_of a) True False),
      log @ [dict_request word l, dict_request (lemma_of a) l])"
    by (intro get_word_body_retry) simp_all
  with h have run: "get_word_body post analyze_words html_text word lang True False True log =
       (Inr (Texts (map ?src ?items)), log @ [dict_request word l, dict_request (lemma_of a) l])"
    by (simp add: Let_def get_word_return_def process_response_map item_text_def)
  have indep: "\<forall>w. process_response html_text ?items w True = map ?src ?items"
    by (simp add: process_response_map item_text_def)
  have same: "list_all (\<lambda>item. srcWord item = lemma_of a) ?items \<longrightarrow>
      fst (get_word_body post analyze_words html_text word lang True False True log) =
        Inr (Texts (map (\<lambda>item. str_replace_char CHR ''~'' (lemma_of a) (html_text (body item)))
               ?items))"
    unfolding run by (simp add: list_all_iff)
  from run indep same show "get_word_body post analyze_words html_text word lang True False True log =
       (Inr (Texts (map ?src ?items)), log @ [dict_request word l, dict_request (lemma_of a) l]) \<and>
     (\<forall>w. process_response html_text ?items w True = map ?src ?items) \<and>
     (list_all (\<lambda>item. srcWord item = lemma_of a) ?items \<longrightarrow>
      fst (get_word_body post analyze_words html_text word lang True False True log) =
        Inr (Texts (map (\<lambda>item. str_replace_char CHR ''~'' (lemma_of a) (html_text (body item)))
               ?items)))"
    by (intro conjI)
qed

text \<open>
  The amended C8 on the run of the counterexample, where one source word is not the
  lemma, and on a run where the only source word is the lemma.
\<close>

theorem C8_tilde_source_word_witness:
  "get_word_body ex_dict2 ex_analyze2 ex_html ''pios'' ''udm'' True False True [] =
     (Inr (Texts [''pi syn'', ''pinal detskiy'']),
      [dict_request ''pios'' \<lparr>lang_id = 1, lang_code = ''udm''\<rparr>,
       dict_request ''pi'' \<lparr>lang_id = 1, lang_code = ''udm''\<rparr>]) \<and>
   process_response ex_html
     [\<lparr>body = ''~ syn'', srcWord = ''pi''\<rparr>, \<lparr>body = ''~ detskiy'', srcWord = ''pinal''\<rparr>]
     ''pios'' True = [''pi syn'', ''pinal detskiy''] \<and>
   process_response ex_html
     [\<lparr>body = ''~ syn'', srcWord = ''pi''\<rparr>, \<lparr>body = ''~ detskiy'', srcWord = ''pinal''\<rparr>]
     ''pi'' True = [''pi syn'', ''pinal detskiy''] \<and>
   list_all (\<lambda>item. srcWord item = ''ukno'') [\<lparr>body = ''~ okno; ~os'', srcWord = ''ukno''\<rparr>] \<and>
   fst (get_word_body ex_dict ex_analyze ex_html ''uknoos'' ''udm'' True False True []) =
     Inr (Texts (map (\<lambda>item. str_replace_char CHR ''~'' ''ukno'' (ex_html (body item)))
            [\<lparr>body = ''~ okno; ~os'', srcWord = ''ukno''\<rparr>]))"
proof -
  let ?l = "\<lparr>lang_id = 1, lang_code = ''udm''\<rparr>"
  note i1 = C8_tilde_source_word[of "''udm''" ?l ex_dict2 "[]" "''pios''" ex_analyze2
      "\<lparr>lemma_of = ''pi''\<rparr>" "[]" ex_html]
  note i2 = C8_tilde_source_word[of "''udm''" ?l ex_dict "[]" "''uknoos''" ex_analyze
      "\<lparr>lemma_of = ''ukno''\<rparr>" "[]" ex_html]
  have c1: "get_word_body ex_dict2 ex_analyze2 ex_html ''pios'' ''udm'' True False True [] =
     (Inr (Texts [''pi syn'', ''pinal detskiy'']),
      [dict_request ''pios'' ?l, dict_request ''pi'' ?l])"
    using i1
    by (simp add: LANGUAGES_udm ex_dict2_def ex_analyze2_def dict_request_def ex_html_def
        str_replace_char_def)
  have c2: "process_response ex_html
     [\<lparr>body = ''~ syn'', srcWord = ''pi''\<rparr>, \<lparr>body = ''~ detskiy'', srcWord = ''pinal''\<rparr>]
     w True = [''pi syn'', ''pinal detskiy'']" for w
    using i1
    by (simp add: LANGUAGES_udm ex_dict2_def ex_analyze2_def dict_request_def ex_html_def
        str_replace_char_def)
  have c3: "list_all (\<lambda>item. srcWord item = ''ukno'')
      [\<lparr>body = ''~ okno; ~os'', srcWord = ''ukno''\<rparr>]"
    by simp
  have c4: "fst (get_word_body ex_dict ex_analyze ex_html ''uknoos'' ''udm'' True False True []) =
     Inr (Texts (map (\<lambda>item. str_replace_char CHR ''~'' ''ukno'' (ex_html (body item)))
            [\<lparr>body = ''~ okno; ~os'', srcWord = ''ukno''\<rparr>]))"
    using i2
    by (simp add: LANGUAGES_udm ex_dict_def ex_analyze_def dict_request_def)
  from c1 c2[of "''pios''"] c2[of "''pi''"] c3 c4 show ?thesis by (intro conjI)
qed
















section \<open>Properties of the corpus service\<close>

lemma history_Suc:
  "1 \<le> k \<Longrightarrow> history post log text params (Suc k) =
     history post log text params k @
       [page_request text params (first_total post log text params) k]"
  by (simp add: history_def)

lemma accumulated_Suc:
  "accumulated post log text params (Suc k) =
     accumulated post log text params k + numberOfElements (page_of post log text params (Suc k))"
  by (simp add: accumulated_def)

lemma accumulated_one:
  "accumulated post log text params (Suc 0) = numberOfElements (page_of post log text params (Suc 0))"
  by (simp add: accumulated_def)

lemma make_request_first:
  "make_request post ''search''
     (build_search_payload text
        \<lparr>kw_full_compare = Some (full_compare params),
         kw_full_text_mode = Some (full_text_mode params),
         kw_page = None, kw_per_page = None, kw_rows_count = None\<rparr>) log =
   (if status_code (page_response post log text params (Suc 0)) \<noteq> 200
    then Inl (APIError (status_code (page_response post log text params (Suc 0)))
                (resp_text (page_response post log text params (Suc 0))))
    else Inr (page_of post log text params (Suc 0)),
    history post log text params (Suc (Suc 0)))"
  by (simp add: make_request_def page_response_def page_of_def history_def page_request_def Let_def)

lemma make_request_page:
  assumes "2 \<le> k"
  shows "make_request post ''search''
     (build_search_payload text
        \<lparr>kw_full_compare = Some (full_compare params),
         kw_full_text_mode = Some (full_text_mode params),
         kw_page = Some (int k), kw_per_page = None,
         kw_rows_count = Some (first_total post log text params)\<rparr>)
     (history post log text params k) =
   (if status_code (page_response post log text params k) \<noteq> 200
    then Inl (APIError (status_code (page_response post log text params k))
                (resp_text (page_response post log text params k)))
    else Inr (page_of post log text params k),
    history post log text params (Suc k))"
proof -
  from assms have k: "k \<noteq> 1" "1 \<le> k" by simp_all
  have req: "(''https://udmcorpus.udman.ru/api/public/'' @ ''search'',
       build_search_payload text
        \<lparr>kw_full_compare = Some (full_compare params),
         kw_full_text_mode = Some (full_text_mode params),
         kw_page = Some (int k), kw_per_page = None,
         kw_rows_count = Some (first_total post log text params)\<rparr>) =
     page_request text params (first_total post log text params) k"
    using k by (simp add: page_request_def)
  show ?thesis
    unfolding make_request_def Let_def req
    by (simp add: page_response_def page_of_def history_Suc[OF k(2)])
qed

lemma first_total_page:
  "first_total post log text params = totalElements (page_of post log text params (Suc 0))"
  by (simp add: first_total_def page_of_def page_response_def history_def page_request_def)

text \<open>The loop, started before page k, whatever the upstream answers.\<close>

lemma fetch_loop_shape:
  assumes "2 \<le> k"
  shows "\<exists>m. k \<le> Suc m \<and>
     snd (fetch_loop fuel post text params (first_total post log text params) c ce (int k)
            (map (page_of post log text params) [1..<k]) (history post log text params k)) =
       history post log text params (Suc m) \<and>
     (\<forall>res c'. fst (fetch_loop fuel post text params (first_total post log text params) c ce (int k)
            (map (page_of post log text params) [1..<k]) (history post log text params k)) =
          Some (Inr (res, c')) \<longrightarrow>
        res = map (page_of post log text params) [1..<Suc m] \<and> c' = c)"
  using assms
proof (induction fuel arbitrary: k ce)
  case 0
  then have "k \<le> Suc (k - 1)" "Suc (k - 1) = k" by simp_all
  then show ?case
    by (intro exI[of _ "k - 1"]) simp
next
  case (Suc fuel)
  show ?case
  proof (cases "ce < c")
    case False
    from Suc.prems have "k \<le> Suc (k - 1)" "Suc (k - 1) = k" by simp_all
    with False show ?thesis
      by (intro exI[of _ "k - 1"]) simp
  next
    case True
    note run = make_request_page[OF Suc.prems, of post "text" params log]
    show ?thesis
    proof (cases "status_code (page_response post log text params k) \<noteq> 200")
      case True
      with \<open>ce < c\<close> run show ?thesis
        by (intro exI[of _ k]) simp
    next
      case ok: False
      show ?thesis
      proof (cases "last_page (page_of post log text params k)")
        case True
        from Suc.prems have "[1..<Suc k] = [1..<k] @ [k]" by simp
        with True ok \<open>ce < c\<close> run show ?thesis
          by (intro exI[of _ k]) (simp add: Let_def)
      next
        case False
        from Suc.prems have up: "[1..<Suc k] = [1..<k] @ [k]" by simp
        have nxt: "int k + 1 = int (Suc k)" by simp
        from Suc.prems have "2 \<le> Suc k" by simp
        from Suc.IH[OF this, of "ce + numberOfElements (page_of post log text params k)"]
        obtain m where m: "Suc k \<le> Suc m"
          "snd (fetch_loop fuel post text params (first_total post log text params) c
                 (ce + numberOfElements (page_of post log text params k)) (int (Suc k))
                 (map (page_of post log text params) [1..<Suc k])
                 (history post log text params (Suc k))) =
             history post log text params (Suc m)"
          "\<forall>res c'. fst (fetch_loop fuel post text params (first_total post log text params) c
                 (ce + numberOfElements (page_of post log text params k)) (int (Suc k))
                 (map (page_of post log text params) [1..<Suc k])
                 (history post log text params (Suc k))) = Some (Inr (res, c')) \<longrightarrow>
              res = map (page_of post log text params) [1..<Suc m] \<and> c' = c"
          by blast
        have step: "fetch_loop (Suc fuel) post text params (first_total post log text params) c ce
              (int k) (map (page_of post log text params) [1..<k]) (history post log text params k) =
            fetch_loop fuel post text params (first_total post log text params) c
                 (ce + numberOfElements (page_of post log text params k)) (int (Suc k))
                 (map (page_of post log text params) [1..<Suc k])
                 (history post log text params (Suc k))"
          using False ok \<open>ce < c\<close> run unfolding up
          by (simp add: Let_def nxt del: of_nat_Suc)
        from m show ?thesis
          unfolding step by (intro exI[of _ m]) simp
      qed
    qed
  qed
qed

text \<open>The loop, started before page k, when page m is where it stops.\<close>

lemma fetch_loop_run:
  assumes "2 \<le> k" and "k \<le> Suc m"
    and ok: "\<forall>j. k \<le> j \<and> j \<le> m \<longrightarrow> status_code (page_response post log text params j) = 200"
    and below: "\<forall>j. k - 1 \<le> j \<and> j < m \<longrightarrow> accumulated post log text params j < c"
    and notlast: "\<forall>j. k \<le> j \<and> j < m \<longrightarrow> \<not> last_page (page_of post log text params j)"
    and stop: "last_page (page_of post log text params m) \<or> c \<le> accumulated post log text params m"
    and stop': "k = Suc m \<longrightarrow> c \<le> accumulated post log text params m"
  shows "fetch_loop fuel post text params (first_total post log text params) c
           (accumulated post log text params (k - 1)) (int k)
           (map (page_of post log text params) [1..<k]) (history post log text params k) =
         (if Suc m - k \<le> fuel
          then (Some (Inr (map (page_of post log text params) [1..<Suc m], c)),
                history post log text params (Suc m))
          else (None, history post log text params (k + fuel)))"
  using assms
proof (induction fuel arbitrary: k)
  case 0
  show ?case
  proof (cases "k = Suc m")
    case True
    with "0.prems" show ?thesis by simp
  next
    case False
    with "0.prems" have "k - 1 < m" "k - 1 \<le> k - 1" by simp_all
    with "0.prems"(4) have "accumulated post log text params (k - 1) < c" by blast
    with False "0.prems"(2) show ?thesis by simp
  qed
next
  case (Suc fuel)
  show ?case
  proof (cases "k = Suc m")
    case True
    with Suc.prems show ?thesis by simp
  next
    case False
    with Suc.prems have km: "k \<le> m" by simp
    with Suc.prems have "k - 1 < m" "k - 1 \<le> k - 1" by simp_all
    with Suc.prems(4) have lt: "accumulated post log text params (k - 1) < c" by blast
    from km Suc.prems(3) have ok: "status_code (page_response post log text params k) = 200"
      by simp
    note run = make_request_page[OF Suc.prems(1), of post "text" params log]
    from Suc.prems(1) have up: "[1..<Suc k] = [1..<k] @ [k]" by simp
    from Suc.prems(1) have acc: "accumulated post log text params (k - 1) +
        numberOfElements (page_of post log text params k) = accumulated post log text params k"
      using accumulated_Suc[of post log "text" params "k - 1"] by simp
    show ?thesis
    proof (cases "last_page (page_of post log text params k)")
      case True
      with Suc.prems(5) km have "k = m" by (cases "k < m") auto
      with True lt ok run up show ?thesis by (simp add: Let_def)
    next
      case nl: False
      have nxt: "int k + 1 = int (Suc k)" by simp
      have step: "fetch_loop (Suc fuel) post text params (first_total post log text params) c
            (accumulated post log text params (k - 1)) (int k)
            (map (page_of post log text params) [1..<k]) (history post log text params k) =
          fetch_loop fuel post text params (first_total post log text params) c
            (accumulated post log text params (Suc k - 1)) (int (Suc k))
            (map (page_of post log text params) [1..<Suc k])
            (history post log text params (Suc k))"
        using nl ok lt run acc unfolding up
        by (simp add: Let_def nxt del: of_nat_Suc)
      have p1: "2 \<le> Suc k" using Suc.prems(1) by simp
      have p2: "Suc k \<le> Suc m" using km by simp
      have p3: "\<forall>j. Suc k \<le> j \<and> j \<le> m \<longrightarrow>
          status_code (page_response post log text params j) = 200"
        using Suc.prems(3) by simp
      have p4: "\<forall>j. Suc k - 1 \<le> j \<and> j < m \<longrightarrow> accumulated post log text params j < c"
      proof (intro allI impI)
        fix j assume "Suc k - 1 \<le> j \<and> j < m"
        then have "k - 1 \<le> j \<and> j < m" by arith
        with Suc.prems(4) show "accumulated post log text params j < c" by blast
      qed
      have p5: "\<forall>j. Suc k \<le> j \<and> j < m \<longrightarrow> \<not> last_page (page_of post log text params j)"
        using Suc.prems(5) by simp
      have p7: "Suc k = Suc m \<longrightarrow> c \<le> accumulated post log text params m"
        using Suc.prems(6) nl by auto
      have "Suc m - Suc k \<le> fuel \<longleftrightarrow> Suc m - k \<le> Suc fuel" using km by auto
      moreover have "Suc k + fuel = k + Suc fuel" by simp
      ultimately show ?thesis
        unfolding step using Suc.IH[OF p1 p2 p3 p4 p5 Suc.prems(6) p7] by simp
    qed
  qed
qed

lemma fetch_texts_error:
  assumes "status_code (page_response post log text params (Suc 0)) \<noteq> 200"
  shows "fetch_texts fuel post text params log =
     (Some (Inl (APIError (status_code (page_response post log text params (Suc 0)))
                   (resp_text (page_response post log text params (Suc 0))))),
      history post log text params (Suc (Suc 0)))"
  using assms by (simp add: fetch_texts_def make_request_first)

lemma fetch_texts_empty:
  assumes "status_code (page_response post log text params (Suc 0)) = 200"
    and "empty_page (page_of post log text params (Suc 0))"
  shows "fetch_texts fuel post text params log =
     (Some (Inr ([], count params)), history post log text params (Suc (Suc 0)))"
  using assms by (simp add: fetch_texts_def make_request_first Let_def)

lemma fetch_texts_single:
  assumes "status_code (page_response post log text params (Suc 0)) = 200"
    and "\<not> empty_page (page_of post log text params (Suc 0))"
    and "last_page (page_of post log text params (Suc 0))"
  shows "fetch_texts fuel post text params log =
     (Some (Inr ([page_of post log text params (Suc 0)], count params)),
      history post log text params (Suc (Suc 0)))"
  using assms by (simp add: fetch_texts_def make_request_first Let_def)

lemma fetch_texts_loop:
  assumes "status_code (page_response post log text params (Suc 0)) = 200"
    and "\<not> empty_page (page_of post log text params (Suc 0))"
    and "\<not> last_page (page_of post log text params (Suc 0))"
  shows "fetch_texts fuel post text params log =
     fetch_loop fuel post text params (first_total post log text params)
       (target_count post log text params) (accumulated post log text params (2 - 1)) (int 2)
       (map (page_of post log text params) [1..<2]) (history post log text params 2)"
  using assms
  by (simp add: fetch_texts_def make_request_first Let_def target_count_def first_total_page
      accumulated_one numeral_2_eq_2)

lemma fetch_texts_shape:
  "\<exists>m. 1 \<le> m \<and>
     snd (fetch_texts fuel post text params log) = history post log text params (Suc m) \<and>
     (\<forall>res c'. fst (fetch_texts fuel post text params log) = Some (Inr (res, c')) \<longrightarrow>
        status_code (page_response post log text params (Suc 0)) = 200 \<and>
        c' = effective_target post log text params \<and>
        (if empty_page (page_of post log text params (Suc 0)) then res = []
         else res = map (page_of post log text params) [1..<Suc m]))"
proof (cases "status_code (page_response post log text params (Suc 0)) = 200")
  case False
  then show ?thesis
    by (intro exI[of _ 1]) (simp add: fetch_texts_error)
next
  case ok: True
  show ?thesis
  proof (cases "empty_page (page_of post log text params (Suc 0))")
    case True
    with ok show ?thesis
      by (intro exI[of _ 1]) (simp add: fetch_texts_empty effective_target_def)
  next
    case ne: False
    show ?thesis
    proof (cases "last_page (page_of post log text params (Suc 0))")
      case True
      with ok ne show ?thesis
        by (intro exI[of _ 1]) (simp add: fetch_texts_single effective_target_def)
    next
      case False
      have tgt: "effective_target post log text params = target_count post log text params"
        using ne False by (simp add: effective_target_def target_count_def first_total_page)
      note eq = fetch_texts_loop[OF ok ne False, of fuel]
      have "2 \<le> (2::nat)" by simp
      from fetch_loop_shape[OF this, of fuel post "text" params log
          "target_count post log text params" "accumulated post log text params (2 - 1)"]
      obtain m where m: "2 \<le> Suc m"
        "snd (fetch_loop fuel post text params (first_total post log text params)
               (target_count post log text params) (accumulated post log text params (2 - 1))
               (int 2) (map (page_of post log text params) [1..<2])
               (history post log text params 2)) = history post log text params (Suc m)"
        "\<forall>res c'. fst (fetch_loop fuel post text params (first_total post log text params)
               (target_count post log text params) (accumulated post log text params (2 - 1))
               (int 2) (map (page_of post log text params) [1..<2])
               (history post log text params 2)) = Some (Inr (res, c')) \<longrightarrow>
           res = map (page_of post log text params) [1..<Suc m] \<and>
           c' = target_count post log text params"
        by blast
      from m(1) have "1 \<le> m" by simp
      moreover from m(2) have "snd (fetch_texts fuel post text params log) =
          history post log text params (Suc m)"
        unfolding eq .
      moreover from m(3) have "\<forall>res c'. fst (fetch_texts fuel post text params log) =
            Some (Inr (res, c')) \<longrightarrow>
           res = map (page_of post log text params) [1..<Suc m] \<and>
           c' = target_count post log text params"
        unfolding eq .
      ultimately show ?thesis
        using ok ne tgt by (intro exI[of _ m]) simp
    qed
  qed
qed

lemma fetch_texts_run:
  assumes m: "1 \<le> m"
    and ok: "\<forall>j. 1 \<le> j \<and> j \<le> m \<longrightarrow> status_code (page_response post log text params j) = 200"
    and ne: "\<not> empty_page (page_of post log text params (Suc 0))"
    and below: "\<forall>j. 1 \<le> j \<and> j < m \<longrightarrow>
        accumulated post log text params j < target_count post log text params \<and>
        \<not> last_page (page_of post log text params j)"
    and stop: "last_page (page_of post log text params m) \<or>
        target_count post log text params \<le> accumulated post log text params m"
  shows "fetch_texts fuel post text params log =
     (if m - 1 \<le> fuel
      then (Some (Inr (map (page_of post log text params) [1..<Suc m],
                       effective_target post log text params)),
            history post log text params (Suc m))
      else (None, history post log text params (Suc (Suc fuel))))"
proof -
  from m ok have ok1: "status_code (page_response post log text params (Suc 0)) = 200" by simp
  show ?thesis
  proof (cases "last_page (page_of post log text params (Suc 0))")
    case True
    with below have "\<not> Suc 0 < m" by auto
    with m have "m = Suc 0" by simp
    with True ok1 ne show ?thesis
      by (simp add: fetch_texts_single effective_target_def)
  next
    case False
    have tgt: "effective_target post log text params = target_count post log text params"
      using ne False by (simp add: effective_target_def target_count_def first_total_page)
    have p2: "2 \<le> Suc m" using m by simp
    have p3: "\<forall>j. 2 \<le> j \<and> j \<le> m \<longrightarrow> status_code (page_response post log text params j) = 200"
      using ok by simp
    have p4: "\<forall>j. 2 - 1 \<le> j \<and> j < m \<longrightarrow>
        accumulated post log text params j < target_count post log text params"
      using below by simp
    have p5: "\<forall>j. 2 \<le> j \<and> j < m \<longrightarrow> \<not> last_page (page_of post log text params j)"
      using below by simp
    have p7: "2 = Suc m \<longrightarrow>
        target_count post log text params \<le> accumulated post log text params m"
      using stop False by auto
    have "2 \<le> (2::nat)" by simp
    note run = fetch_loop_run[OF this p2 p3 p4 p5 stop p7, of fuel]
    have "Suc m - 2 = m - 1" "2 + fuel = Suc (Suc fuel)" by simp_all
    then show ?thesis
      unfolding fetch_texts_loop[OF ok1 ne False, of fuel] run tgt by simp
  qed
qed

lemma new_requests_history:
  "new_requests log (history post log text params k) =
     map (page_request text params (first_total post log text params)) [1..<k]"
  by (simp add: new_requests_def history_def)

lemma page_request_page: "1 \<le> k \<Longrightarrow> page (snd (page_request text params t k)) = int k"
  by (simp add: page_request_def build_search_payload_def Let_def)

lemma page_request_rows:
  "rows (snd (page_request text params t k)) = (if k = 1 then 0 else t)"
  by (simp add: page_request_def build_search_payload_def Let_def)

lemma page_request_perPage: "perPage (snd (page_request text params t k)) = 10"
  by (simp add: page_request_def build_search_payload_def Let_def)

lemma pages_of_requests:
  "map (\<lambda>r. page (snd r)) (map (page_request text params t) [1..<k]) = map int [1..<k]"
  by (simp add: page_request_page)

text \<open>
  Claim C1, amended. Let page \<open>N\<close> be the first page whose response reports
  \<^verbatim>\<open>last\<close>, every response up to it having status 200. Then \<^verbatim>\<open>_fetch_texts\<close>
  stops at a page \<open>m \<le> N\<close>: with enough fuel (\<open>m - 1\<close> loop bodies) it returns, and
  the pages it has requested are \<open>1, 2, ..., m\<close> in this order. When the first page
  does not report \<^verbatim>\<open>empty\<close>, \<open>m\<close> is \<open>N\<close> or a page after which the accumulated
  \<^verbatim>\<open>numberOfElements\<close> has reached the effective target count, and after no earlier
  page had it been reached. When the first page reports \<^verbatim>\<open>empty\<close>, the search
  returns before the loop, after page 1 (\<open>m = 1\<close>). With any fuel at all, the pages
  requested are \<open>1, ..., j\<close> for some \<open>j \<le> m\<close>: no page beyond the one that reported
  \<^verbatim>\<open>last\<close> is ever requested.
\<close>

theorem C1_pagination_termination:
  assumes N: "1 \<le> N"
    and ok: "\<forall>k. 1 \<le> k \<and> k \<le> N \<longrightarrow> status_code (page_response post log text params k) = 200"
    and last: "last_page (page_of post log text params N)"
    and notlast: "\<forall>k. 1 \<le> k \<and> k < N \<longrightarrow> \<not> last_page (page_of post log text params k)"
  shows "\<exists>m. 1 \<le> m \<and> m \<le> N \<and>
     (empty_page (page_of post log text params 1) \<longrightarrow> m = 1) \<and>
     (\<not> empty_page (page_of post log text params 1) \<longrightarrow>
        (m = N \<or> target_count post log text params \<le> accumulated post log text params m) \<and>
        (\<forall>j. 1 \<le> j \<and> j < m \<longrightarrow>
           accumulated post log text params j < target_count post log text params)) \<and>
     (\<forall>fuel. m \<le> Suc fuel \<longrightarrow>
        (\<exists>r. fst (fetch_texts fuel post text params log) = Some (Inr r)) \<and>
        snd (fetch_texts fuel post text params log) =
          log @ map (page_request text params (first_total post log text params)) [1..<Suc m] \<and>
        map (\<lambda>r. page (snd r)) (new_requests log (snd (fetch_texts fuel post text params log))) =
          map int [1..<Suc m]) \<and>
     (\<forall>fuel. \<exists>j. 1 \<le> j \<and> j \<le> m \<and>
        map (\<lambda>r. page (snd r)) (new_requests log (snd (fetch_texts fuel post text params log))) =
          map int [1..<Suc j])"
proof (cases "empty_page (page_of post log text params (Suc 0))")
  case True
  from N ok have ok1: "status_code (page_response post log text params (Suc 0)) = 200" by simp
  have run: "fetch_texts fuel post text params log =
      (Some (Inr ([], count params)), history post log text params (Suc (Suc 0)))" for fuel
    by (rule fetch_texts_empty[OF ok1 True])
  have pages: "map (\<lambda>r. page (snd r))
       (new_requests log (snd (fetch_texts fuel post text params log))) = map int [1..<Suc 1]"
    for fuel
    unfolding run snd_conv new_requests_history pages_of_requests by simp
  have c3: "\<forall>fuel. 1 \<le> Suc fuel \<longrightarrow>
        (\<exists>r. fst (fetch_texts fuel post text params log) = Some (Inr r)) \<and>
        snd (fetch_texts fuel post text params log) =
          log @ map (page_request text params (first_total post log text params)) [1..<Suc 1] \<and>
        map (\<lambda>r. page (snd r)) (new_requests log (snd (fetch_texts fuel post text params log))) =
          map int [1..<Suc 1]"
    using pages by (simp add: run history_def)
  have c4: "\<forall>fuel. \<exists>j. 1 \<le> j \<and> j \<le> 1 \<and>
        map (\<lambda>r. page (snd r)) (new_requests log (snd (fetch_texts fuel post text params log))) =
          map int [1..<Suc j]"
    using pages by (intro allI exI[of _ 1]) simp
  have c0: "(1::nat) \<le> 1" by simp
  have c1: "empty_page (page_of post log text params 1) \<longrightarrow> (1::nat) = 1" by simp
  have c2: "\<not> empty_page (page_of post log text params 1) \<longrightarrow>
        ((1::nat) = N \<or> target_count post log text params \<le> accumulated post log text params 1) \<and>
        (\<forall>j. 1 \<le> j \<and> j < 1 \<longrightarrow>
           accumulated post log text params j < target_count post log text params)"
    using True by simp
  from c0 N c1 c2 c3 c4 show ?thesis
    by (intro exI[of _ 1] conjI)
next
  case ne: False
  let ?tgt = "target_count post log text params"
  let ?P = "\<lambda>j. 1 \<le> j \<and> (last_page (page_of post log text params j) \<or>
      ?tgt \<le> accumulated post log text params j)"
  define m where "m = (LEAST j. ?P j)"
  from N last have PN: "?P N" by simp
  then have Pm: "?P m" unfolding m_def by (rule LeastI)
  from PN have mN: "m \<le> N" unfolding m_def by (rule Least_le)
  have min: "\<not> ?P j" if "j < m" for j
    using that unfolding m_def by (rule not_less_Least)
  from Pm have m1: "1 \<le> m" by simp
  have okm: "\<forall>j. 1 \<le> j \<and> j \<le> m \<longrightarrow> status_code (page_response post log text params j) = 200"
    using ok mN by simp
  have below: "\<forall>j. 1 \<le> j \<and> j < m \<longrightarrow>
        accumulated post log text params j < ?tgt \<and>
        \<not> last_page (page_of post log text params j)"
  proof (intro allI impI)
    fix j assume j: "1 \<le> j \<and> j < m"
    then have "\<not> ?P j" using min by blast
    with j show "accumulated post log text params j < ?tgt \<and>
        \<not> last_page (page_of post log text params j)"
      by (simp add: not_le)
  qed
  from Pm have stop: "last_page (page_of post log text params m) \<or>
      ?tgt \<le> accumulated post log text params m" by simp
  note run = fetch_texts_run[OF m1 okm ne below stop]
  have c1: "m = N \<or> ?tgt \<le> accumulated post log text params m"
  proof (cases "m = N")
    case False
    with mN have "m < N" by simp
    with m1 notlast have "\<not> last_page (page_of post log text params m)" by simp
    with stop show ?thesis by simp
  qed simp
  have c2: "\<forall>j. 1 \<le> j \<and> j < m \<longrightarrow> accumulated post log text params j < ?tgt"
    using below by simp
  have c3: "\<forall>fuel. m \<le> Suc fuel \<longrightarrow>
        (\<exists>r. fst (fetch_texts fuel post text params log) = Some (Inr r)) \<and>
        snd (fetch_texts fuel post text params log) =
          log @ map (page_request text params (first_total post log text params)) [1..<Suc m] \<and>
        map (\<lambda>r. page (snd r)) (new_requests log (snd (fetch_texts fuel post text params log))) =
          map int [1..<Suc m]"
  proof (intro allI impI)
    fix fuel assume "m \<le> Suc fuel"
    then have "m - 1 \<le> fuel" by simp
    then have eq: "fetch_texts fuel post text params log =
        (Some (Inr (map (page_of post log text params) [1..<Suc m],
                    effective_target post log text params)),
         history post log text params (Suc m))"
      by (simp add: run)
    show "(\<exists>r. fst (fetch_texts fuel post text params log) = Some (Inr r)) \<and>
        snd (fetch_texts fuel post text params log) =
          log @ map (page_request text params (first_total post log text params)) [1..<Suc m] \<and>
        map (\<lambda>r. page (snd r)) (new_requests log (snd (fetch_texts fuel post text params log))) =
          map int [1..<Suc m]"
      unfolding eq snd_conv fst_conv new_requests_history pages_of_requests
      by (simp add: history_def)
  qed
  have c4: "\<forall>fuel. \<exists>j. 1 \<le> j \<and> j \<le> m \<and>
        map (\<lambda>r. page (snd r)) (new_requests log (snd (fetch_texts fuel post text params log))) =
          map int [1..<Suc j]"
  proof
    fix fuel
    show "\<exists>j. 1 \<le> j \<and> j \<le> m \<and>
        map (\<lambda>r. page (snd r)) (new_requests log (snd (fetch_texts fuel post text params log))) =
          map int [1..<Suc j]"
    proof (cases "m - 1 \<le> fuel")
      case True
      then have eq: "snd (fetch_texts fuel post text params log) =
          history post log text params (Suc m)"
        by (simp add: run)
      show ?thesis
        unfolding eq new_requests_history pages_of_requests
        using m1 by (intro exI[of _ m]) simp
    next
      case False
      then have eq: "snd (fetch_texts fuel post text params log) =
          history post log text params (Suc (Suc fuel))"
        by (simp add: run)
      from False have "Suc fuel \<le> m" by simp
      then show ?thesis
        unfolding eq new_requests_history pages_of_requests
        by (intro exI[of _ "Suc fuel"]) simp
    qed
  qed
  have c0: "empty_page (page_of post log text params 1) \<longrightarrow> m = 1"
    using ne by simp
  have c12: "\<not> empty_page (page_of post log text params 1) \<longrightarrow>
        (m = N \<or> ?tgt \<le> accumulated post log text params m) \<and>
        (\<forall>j. 1 \<le> j \<and> j < m \<longrightarrow> accumulated post log text params j < ?tgt)"
    using c1 c2 by simp
  from m1 mN c0 c12 c3 c4 show ?thesis
    by (intro exI[of _ m] conjI)
qed

text \<open>
  C1 on the example corpus, whose third page is the first to report \<^verbatim>\<open>last\<close>: with a
  count of three the pages 1 and 2 are requested (the target is reached), with the
  default count of ten the pages 1, 2 and 3 (the last page is reached), and with too
  little fuel the run stops early, having requested pages in the same order. On the
  upstream whose first page reports \<^verbatim>\<open>empty\<close>, page 1 alone is requested.
\<close>

theorem C1_pagination_termination_witness:
  "last_page (page_of ex_corpus [] ''q'' (DEFAULT_PARAMS\<lparr>count := 3\<rparr>) 3) \<and>
   \<not> last_page (page_of ex_corpus [] ''q'' (DEFAULT_PARAMS\<lparr>count := 3\<rparr>) 2) \<and>
   \<not> last_page (page_of ex_corpus [] ''q'' (DEFAULT_PARAMS\<lparr>count := 3\<rparr>) 1) \<and>
   (\<exists>m. 1 \<le> m \<and> m \<le> 3 \<and>
      (\<exists>r. fst (fetch_texts 5 ex_corpus ''q'' (DEFAULT_PARAMS\<lparr>count := 3\<rparr>) []) = Some (Inr r)) \<and>
      map (\<lambda>r. page (snd r))
        (new_requests [] (snd (fetch_texts 5 ex_corpus ''q'' (DEFAULT_PARAMS\<lparr>count := 3\<rparr>) []))) =
      map int [1..<Suc m]) \<and>
   map (\<lambda>r. page (snd r))
     (new_requests [] (snd (fetch_texts 5 ex_corpus ''q'' (DEFAULT_PARAMS\<lparr>count := 3\<rparr>) []))) =
     [1, 2] \<and>
   map (\<lambda>r. page (snd r))
     (new_requests [] (snd (fetch_texts 5 ex_corpus ''q'' DEFAULT_PARAMS []))) = [1, 2, 3] \<and>
   fetch_texts 1 ex_corpus ''q'' DEFAULT_PARAMS [] =
     (None, [page_request ''q'' DEFAULT_PARAMS 5 1, page_request ''q'' DEFAULT_PARAMS 5 2]) \<and>
   empty_page (page_of ex_empty_first [] ''q'' DEFAULT_PARAMS 1) \<and>
   last_page (page_of ex_empty_first [] ''q'' DEFAULT_PARAMS 2) \<and>
   map (\<lambda>r. page (snd r))
     (new_requests [] (snd (fetch_texts 5 ex_empty_first ''q'' DEFAULT_PARAMS []))) =
     map int [1..<Suc 1]"
proof -
  let ?p = "DEFAULT_PARAMS\<lparr>count := 3\<rparr>"
  have n: "(1::nat) \<le> 3" by simp
  have ok: "\<forall>k. 1 \<le> k \<and> k \<le> 3 \<longrightarrow> status_code (page_response ex_corpus [] ''q'' ?p k) = 200"
    by (simp add: page_response_def ex_corpus_def)
  have lp: "last_page (page_of ex_corpus [] ''q'' ?p k) = (3 \<le> k)" if "1 \<le> k" for k
    using that by (simp add: page_of_def page_response_def ex_corpus_def page_request_page)
  have l3: "last_page (page_of ex_corpus [] ''q'' ?p 3)" by (simp add: lp)
  have nl: "\<forall>k. 1 \<le> k \<and> k < 3 \<longrightarrow> \<not> last_page (page_of ex_corpus [] ''q'' ?p k)"
    by (simp add: lp)
  from C1_pagination_termination[OF n ok l3 nl]
  obtain m where m: "1 \<le> m" "m \<le> 3"
    and run: "\<forall>fuel. m \<le> Suc fuel \<longrightarrow>
        (\<exists>r. fst (fetch_texts fuel ex_corpus ''q'' ?p []) = Some (Inr r)) \<and>
        snd (fetch_texts fuel ex_corpus ''q'' ?p []) =
          [] @ map (page_request ''q'' ?p (first_total ex_corpus [] ''q'' ?p)) [1..<Suc m] \<and>
        map (\<lambda>r. page (snd r)) (new_requests [] (snd (fetch_texts fuel ex_corpus ''q'' ?p []))) =
          map int [1..<Suc m]"
    by blast
  from m(2) have "m \<le> Suc 5" by simp
  with run have r5: "(\<exists>r. fst (fetch_texts 5 ex_corpus ''q'' ?p []) = Some (Inr r)) \<and>
      map (\<lambda>r. page (snd r)) (new_requests [] (snd (fetch_texts 5 ex_corpus ''q'' ?p []))) =
        map int [1..<Suc m]"
    by blast
  have ev1: "map (\<lambda>r. page (snd r))
     (new_requests [] (snd (fetch_texts 5 ex_corpus ''q'' ?p []))) = [1, 2]"
    by (simp add: eval_nat_numeral fetch_texts_def make_request_def build_search_payload_def
        ex_corpus_def Let_def DEFAULT_PARAMS_def new_requests_def)
  have ev2: "map (\<lambda>r. page (snd r))
     (new_requests [] (snd (fetch_texts 5 ex_corpus ''q'' DEFAULT_PARAMS []))) = [1, 2, 3]"
    by (simp add: eval_nat_numeral fetch_texts_def make_request_def build_search_payload_def
        ex_corpus_def Let_def DEFAULT_PARAMS_def new_requests_def)
  have ev3: "fetch_texts 1 ex_corpus ''q'' DEFAULT_PARAMS [] =
     (None, [page_request ''q'' DEFAULT_PARAMS 5 1, page_request ''q'' DEFAULT_PARAMS 5 2])"
    by (simp add: fetch_texts_def make_request_def build_search_payload_def
        ex_corpus_def Let_def DEFAULT_PARAMS_def page_request_def)
  have nl2: "\<not> last_page (page_of ex_corpus [] ''q'' ?p 2)"
    and nl1: "\<not> last_page (page_of ex_corpus [] ''q'' ?p 1)"
    by (simp_all add: lp)
  from m r5 have ex: "\<exists>m. 1 \<le> m \<and> m \<le> 3 \<and>
      (\<exists>r. fst (fetch_texts 5 ex_corpus ''q'' ?p []) = Some (Inr r)) \<and>
      map (\<lambda>r. page (snd r)) (new_requests [] (snd (fetch_texts 5 ex_corpus ''q'' ?p []))) =
        map int [1..<Suc m]"
    by blast
  let ?q = DEFAULT_PARAMS
  have n2: "(1::nat) \<le> 2" by simp
  have ok2: "\<forall>k. 1 \<le> k \<and> k \<le> 2 \<longrightarrow>
      status_code (page_response ex_empty_first [] ''q'' ?q k) = 200"
    by (simp add: page_response_def ex_empty_first_def)
  have lq: "last_page (page_of ex_empty_first [] ''q'' ?q k) = (2 \<le> k)" if "1 \<le> k" for k
    using that by (simp add: page_of_def page_response_def ex_empty_first_def page_request_page)
  have lq2: "last_page (page_of ex_empty_first [] ''q'' ?q 2)" by (simp add: lq)
  have nlq: "\<forall>k. 1 \<le> k \<and> k < 2 \<longrightarrow> \<not> last_page (page_of ex_empty_first [] ''q'' ?q k)"
    by (simp add: lq)
  have nlq1: "\<not> last_page (page_of ex_empty_first [] ''q'' ?q 1)" by (simp add: lq)
  have em: "empty_page (page_of ex_empty_first [] ''q'' ?q 1)"
    by (simp add: page_of_def page_response_def ex_empty_first_def)
  from C1_pagination_termination[OF n2 ok2 lq2 nlq]
  obtain m' where e1: "empty_page (page_of ex_empty_first [] ''q'' ?q 1) \<longrightarrow> m' = 1"
    and run': "\<forall>fuel. m' \<le> Suc fuel \<longrightarrow>
        (\<exists>r. fst (fetch_texts fuel ex_empty_first ''q'' ?q []) = Some (Inr r)) \<and>
        snd (fetch_texts fuel ex_empty_first ''q'' ?q []) =
          [] @ map (page_request ''q'' ?q (first_total ex_empty_first [] ''q'' ?q)) [1..<Suc m'] \<and>
        map (\<lambda>r. page (snd r))
          (new_requests [] (snd (fetch_texts fuel ex_empty_first ''q'' ?q []))) =
          map int [1..<Suc m']"
    by blast
  from e1 em have m': "m' = 1" by (rule mp)
  from m' have "m' \<le> Suc 5" by simp
  from run'[rule_format, OF this, THEN conjunct2, THEN conjunct2]
  have ev4: "map (\<lambda>r. page (snd r))
     (new_requests [] (snd (fetch_texts 5 ex_empty_first ''q'' ?q []))) = map int [1..<Suc 1]"
    unfolding m' .
  from l3 nl2 nl1 ex ev1 ev2 ev3 em lq2 ev4 show ?thesis by (intro conjI)
qed
text \<open>
  Claim C1 as stated fails when the first page reports \<^verbatim>\<open>empty\<close> without reporting
  \<^verbatim>\<open>last\<close>. Against \<open>ex_empty_first\<close> page 2 is the first to report \<^verbatim>\<open>last\<close>,
  but the search returns after page 1, before the loop: page 1 is not page 2, and the
  accumulated count after it, 0, has not reached the target, 10.
\<close>

theorem C1_empty_first_page_counterexample:
  "status_code (page_response ex_empty_first [] ''q'' DEFAULT_PARAMS 1) = 200 \<and>
   status_code (page_response ex_empty_first [] ''q'' DEFAULT_PARAMS 2) = 200 \<and>
   \<not> last_page (page_of ex_empty_first [] ''q'' DEFAULT_PARAMS 1) \<and>
   last_page (page_of ex_empty_first [] ''q'' DEFAULT_PARAMS 2) \<and>
   empty_page (page_of ex_empty_first [] ''q'' DEFAULT_PARAMS 1) \<and>
   fetch_texts 5 ex_empty_first ''q'' DEFAULT_PARAMS [] =
     (Some (Inr ([], 10)), [page_request ''q'' DEFAULT_PARAMS 0 1]) \<and>
   map (\<lambda>r. page (snd r))
     (new_requests [] (snd (fetch_texts 5 ex_empty_first ''q'' DEFAULT_PARAMS []))) = [1] \<and>
   accumulated ex_empty_first [] ''q'' DEFAULT_PARAMS 1 = 0 \<and>
   effective_target ex_empty_first [] ''q'' DEFAULT_PARAMS = 10 \<and>
   \<not> effective_target ex_empty_first [] ''q'' DEFAULT_PARAMS \<le>
       accumulated ex_empty_first [] ''q'' DEFAULT_PARAMS 1"
  by (simp add: fetch_texts_def make_request_def build_search_payload_def ex_empty_first_def
      Let_def DEFAULT_PARAMS_def new_requests_def page_request_def page_of_def page_response_def
      history_def first_total_def accumulated_def effective_target_def numeral_2_eq_2)
lemma get_texts_log:
  "snd (get_texts fuel post text params log) =
     snd (fetch_texts fuel post text (merge_params params) log)"
  by (simp add: get_texts_def Let_def split: prod.splits option.splits sum.splits)

lemma get_texts_result:
  "fst (get_texts fuel post text params log) =
     (case fst (fetch_texts fuel post text (merge_params params) log) of
        None \<Rightarrow> None
      | Some (Inl e) \<Rightarrow> Some (Inl e)
      | Some (Inr (results, new_count)) \<Rightarrow>
          if results = [] then Some (Inl (TextsNotFoundError text))
          else if return_full_json (merge_params params) then Some (Inr (FullPages results))
          else Some (Inr (Bodies (slice_to new_count
                 (concat (map (\<lambda>page. map item_body (content page)) results))))))"
  by (simp add: get_texts_def Let_def split: prod.splits option.splits sum.splits)

lemma make_request_error:
  "make_request post endpoint payload log = (Inl e, log') \<Longrightarrow> \<exists>code msg. e = APIError code msg"
  by (auto simp: make_request_def Let_def split: if_splits)

lemma fetch_loop_error:
  "fst (fetch_loop fuel post text params t c ce k results log) = Some (Inl e) \<Longrightarrow>
   \<exists>code msg. e = APIError code msg"
proof (induction fuel arbitrary: ce k results log)
  case 0
  then show ?case by (simp split: if_splits)
next
  case (Suc fuel)
  then show ?case
    by (auto simp: Let_def split: if_splits prod.splits sum.splits
        dest: make_request_error)
qed

lemma fetch_texts_raises:
  "fst (fetch_texts fuel post text params log) = Some (Inl e) \<Longrightarrow>
   \<exists>code msg. e = APIError code msg"
  by (auto simp: fetch_texts_def Let_def split: if_splits prod.splits sum.splits
      dest: fetch_loop_error make_request_error)

lemma upt_from_one: "1 \<le> m \<Longrightarrow> [1..<Suc m] = 1 # [2..<Suc m]"
  by (simp add: upt_conv_Cons numeral_2_eq_2)

lemma page_rows_of_requests:
  "map (\<lambda>r. (page (snd r), rows (snd r))) (map (page_request text params t) [2..<k]) =
     map (\<lambda>j. (int j, t)) [2..<k]"
  by (auto simp: page_request_page page_request_rows)

lemma perPage_of_requests:
  "map (\<lambda>r. perPage (snd r)) (map (page_request text params t) ks) =
     replicate (length ks) 10"
  by (induction ks) (simp_all add: page_request_perPage)

lemma slice_to_nonneg: "0 \<le> n \<Longrightarrow> slice_to n xs = take (nat n) xs"
  by (simp add: slice_to_def)

text \<open>
  Claim C3. The first search request carries \<open>page = 1\<close> and \<open>rows = 0\<close>; the request
  for each later page \<open>k\<close> carries \<open>page = k\<close> and, as \<open>rows\<close>, the value of
  \<^verbatim>\<open>totalElements\<close> in the first page's response. This holds of the requests of every
  run, whatever the fuel and the outcome.
\<close>

theorem C3_page_and_rows:
  "\<exists>m. 1 \<le> m \<and>
     map (\<lambda>r. (page (snd r), rows (snd r)))
       (new_requests log (snd (get_texts fuel post text params log))) =
     (1, 0) # map (\<lambda>k. (int k, totalElements (page_of post log text (merge_params params) 1)))
                [2..<Suc m]"
proof -
  let ?sp = "merge_params params"
  from fetch_texts_shape[of fuel post "text" ?sp log]
  obtain m where m: "1 \<le> m"
    and lg: "snd (fetch_texts fuel post text ?sp log) = history post log text ?sp (Suc m)"
    by blast
  have "map (\<lambda>r. (page (snd r), rows (snd r)))
       (map (page_request text ?sp (first_total post log text ?sp)) [1..<Suc m]) =
     (1, 0) # map (\<lambda>k. (int k, totalElements (page_of post log text ?sp 1))) [2..<Suc m]"
    unfolding upt_from_one[OF m] list.map page_rows_of_requests
    by (simp add: page_request_page page_request_rows first_total_page)
  then show ?thesis
    using m unfolding get_texts_log lg new_requests_history by (intro exI[of _ m]) simp
qed

text \<open>C3 on the example corpus: three requests, the later two with \<open>rows = 5\<close>.\<close>

theorem C3_page_and_rows_witness:
  "map (\<lambda>r. (page (snd r), rows (snd r)))
     (new_requests [] (snd (get_texts 5 ex_corpus ''q'' None []))) = [(1, 0), (2, 5), (3, 5)] \<and>
   totalElements (page_of ex_corpus [] ''q'' (merge_params None) 1) = 5"
proof -
  have ev: "map (\<lambda>r. (page (snd r), rows (snd r)))
     (new_requests [] (snd (get_texts 5 ex_corpus ''q'' None []))) = [(1, 0), (2, 5), (3, 5)]"
    by (simp add: eval_nat_numeral get_texts_def merge_params_def fetch_texts_def make_request_def
        build_search_payload_def ex_corpus_def Let_def DEFAULT_PARAMS_def new_requests_def)
  have tot: "totalElements (page_of ex_corpus [] ''q'' (merge_params None) 1) = 5"
    by (simp add: page_of_def page_response_def ex_corpus_def)
  from C3_page_and_rows[of "[]" 5 ex_corpus "''q''" None] ev tot show ?thesis by simp
qed

text \<open>
  Claim C10. Whatever the caller passes as \<^verbatim>\<open>page\<close> and \<^verbatim>\<open>per_page\<close> (and as any
  other key), every search request carries \<open>perPage = 10\<close> and the first one carries
  \<open>page = 1\<close>.
\<close>

theorem C10_page_and_per_page_ignored:
  "\<exists>m. 1 \<le> m \<and>
     map (\<lambda>r. perPage (snd r)) (new_requests log (snd (get_texts fuel post text params log))) =
       replicate m 10 \<and>
     map (\<lambda>r. page (snd r)) (take 1 (new_requests log (snd (get_texts fuel post text params log)))) =
       [1]"
proof -
  let ?sp = "merge_params params"
  from fetch_texts_shape[of fuel post "text" ?sp log]
  obtain m where m: "1 \<le> m"
    and lg: "snd (fetch_texts fuel post text ?sp log) = history post log text ?sp (Suc m)"
    by blast
  have a: "map (\<lambda>r. perPage (snd r))
       (map (page_request text ?sp (first_total post log text ?sp)) [1..<Suc m]) = replicate m 10"
    unfolding perPage_of_requests by simp
  have b: "map (\<lambda>r. page (snd r))
       (take 1 (map (page_request text ?sp (first_total post log text ?sp)) [1..<Suc m])) = [1]"
    unfolding upt_from_one[OF m] by (simp add: page_request_page)
  from m a b show ?thesis
    unfolding get_texts_log lg new_requests_history by (intro exI[of _ m] conjI)
qed

text \<open>C10 on the example corpus, for a caller that asks for page 7 and 50 per page.\<close>

theorem C10_page_and_per_page_ignored_witness:
  "map (\<lambda>r. (page (snd r), perPage (snd r)))
     (new_requests []
        (snd (get_texts 5 ex_corpus ''q''
           (Some (no_params\<lparr>given_all_texts := Some True, given_page := Some 7,
                             given_per_page := Some 50\<rparr>)) []))) =
   [(1, 10), (2, 10), (3, 10)]"
proof -
  have ev: "map (\<lambda>r. (page (snd r), perPage (snd r)))
     (new_requests []
        (snd (get_texts 5 ex_corpus ''q''
           (Some (no_params\<lparr>given_all_texts := Some True, given_page := Some 7,
                             given_per_page := Some 50\<rparr>)) []))) =
   [(1, 10), (2, 10), (3, 10)]"
    by (simp add: eval_nat_numeral get_texts_def merge_params_def update_params_def no_params_def
        fetch_texts_def make_request_def build_search_payload_def ex_corpus_def Let_def
        DEFAULT_PARAMS_def new_requests_def)
  from C10_page_and_per_page_ignored[of "[]" 5 ex_corpus "''q''"
      "Some (no_params\<lparr>given_all_texts := Some True, given_page := Some 7,
                         given_per_page := Some 50\<rparr>)"] ev
  show ?thesis by simp
qed
text \<open>The loop, started before page k, when the fuel runs out.\<close>

lemma fetch_loop_none:
  assumes "2 \<le> k"
    and "fst (fetch_loop fuel post text params (first_total post log text params) c
           (accumulated post log text params (k - 1)) (int k)
           (map (page_of post log text params) [1..<k]) (history post log text params k)) = None"
  shows "\<forall>j. k - 1 \<le> j \<and> j < k + fuel \<longrightarrow>
      accumulated post log text params j < c \<and>
      (k \<le> j \<longrightarrow> status_code (page_response post log text params j) = 200 \<and>
         \<not> last_page (page_of post log text params j))"
  using assms
proof (induction fuel arbitrary: k)
  case 0
  from "0.prems"(2) have "accumulated post log text params (k - 1) < c"
    by (simp split: if_splits)
  moreover have "j = k - 1" if "k - 1 \<le> j \<and> j < k + 0" for j
    using that "0.prems"(1) by arith
  ultimately show ?case using "0.prems"(1) by auto
next
  case (Suc fuel)
  note run = make_request_page[OF Suc.prems(1), of post "text" params log]
  from Suc.prems(2) have lt: "accumulated post log text params (k - 1) < c"
    by (simp split: if_splits)
  from Suc.prems(2) lt have ok: "status_code (page_response post log text params k) = 200"
    by (simp add: run split: if_splits)
  from Suc.prems(2) lt ok have nl: "\<not> last_page (page_of post log text params k)"
    by (simp add: run Let_def split: if_splits)
  from Suc.prems(1) have up: "[1..<Suc k] = [1..<k] @ [k]" by simp
  from Suc.prems(1) have acc: "accumulated post log text params (k - 1) +
      numberOfElements (page_of post log text params k) = accumulated post log text params k"
    using accumulated_Suc[of post log "text" params "k - 1"] by simp
  have nxt: "int k + 1 = int (Suc k)" by simp
  have step: "fetch_loop (Suc fuel) post text params (first_total post log text params) c
        (accumulated post log text params (k - 1)) (int k)
        (map (page_of post log text params) [1..<k]) (history post log text params k) =
      fetch_loop fuel post text params (first_total post log text params) c
        (accumulated post log text params (Suc k - 1)) (int (Suc k))
        (map (page_of post log text params) [1..<Suc k])
        (history post log text params (Suc k))"
    using nl ok lt run acc unfolding up
    by (simp add: Let_def nxt del: of_nat_Suc)
  have p1: "2 \<le> Suc k" using Suc.prems(1) by simp
  from Suc.prems(2) have "fst (fetch_loop fuel post text params (first_total post log text params) c
        (accumulated post log text params (Suc k - 1)) (int (Suc k))
        (map (page_of post log text params) [1..<Suc k])
        (history post log text params (Suc k))) = None"
    unfolding step .
  from Suc.IH[OF p1 this]
  have ih: "\<forall>j. Suc k - 1 \<le> j \<and> j < Suc k + fuel \<longrightarrow>
      accumulated post log text params j < c \<and>
      (Suc k \<le> j \<longrightarrow> status_code (page_response post log text params j) = 200 \<and>
         \<not> last_page (page_of post log text params j))" .
  show ?case
  proof (intro allI impI)
    fix j assume j: "k - 1 \<le> j \<and> j < k + Suc fuel"
    consider "j = k - 1" | "j = k" | "Suc k \<le> j" using j by arith
    then show "accumulated post log text params j < c \<and>
      (k \<le> j \<longrightarrow> status_code (page_response post log text params j) = 200 \<and>
         \<not> last_page (page_of post log text params j))"
    proof cases
      case 1
      with lt Suc.prems(1) show ?thesis by auto
    next
      case 2
      with ih j have "accumulated post log text params j < c" by simp
      with 2 ok nl show ?thesis by simp
    next
      case 3
      with ih j show ?thesis by simp
    qed
  qed
qed

lemma fetch_texts_none:
  assumes ok: "status_code (page_response post log text params (Suc 0)) = 200"
    and ne: "\<not> empty_page (page_of post log text params (Suc 0))"
    and none: "fst (fetch_texts fuel post text params log) = None"
  shows "\<forall>j. 1 \<le> j \<and> j \<le> Suc fuel \<longrightarrow>
      status_code (page_response post log text params j) = 200 \<and>
      \<not> last_page (page_of post log text params j) \<and>
      accumulated post log text params j < target_count post log text params"
proof -
  have nl: "\<not> last_page (page_of post log text params (Suc 0))"
  proof
    assume "last_page (page_of post log text params (Suc 0))"
    with ok ne none show False by (simp add: fetch_texts_single)
  qed
  have "2 \<le> (2::nat)" by simp
  from fetch_loop_none[OF this none[unfolded fetch_texts_loop[OF ok ne nl]]]
  have l: "\<forall>j. 2 - 1 \<le> j \<and> j < 2 + fuel \<longrightarrow>
      accumulated post log text params j < target_count post log text params \<and>
      (2 \<le> j \<longrightarrow> status_code (page_response post log text params j) = 200 \<and>
         \<not> last_page (page_of post log text params j))" .
  show ?thesis
  proof (intro allI impI)
    fix j assume j: "1 \<le> j \<and> j \<le> Suc fuel"
    then have r: "2 - 1 \<le> j \<and> j < 2 + fuel" by arith
    show "status_code (page_response post log text params j) = 200 \<and>
      \<not> last_page (page_of post log text params j) \<and>
      accumulated post log text params j < target_count post log text params"
    proof (cases "j = 1")
      case True
      with l r ok nl show ?thesis by simp
    next
      case False
      with j have "2 \<le> j" by arith
      with l r show ?thesis by blast
    qed
  qed
qed

text \<open>
  Claim C4. Once the first response has arrived (status 200), \<open>get_texts\<close> raises
  \<open>TextsNotFoundError\<close> exactly when that response reports \<^verbatim>\<open>empty\<close>; it raises it
  in no other situation, and the only other exception is \<open>APIError\<close>. When the first
  page is not empty, the search returns the pages \<open>1, ..., m\<close>, at least one, as soon
  as \<open>m\<close> is a page that reports \<^verbatim>\<open>last\<close> or after which the target is reached, no
  earlier page is, the responses up to \<open>m\<close> have status 200 and the fuel allows
  \<open>m - 1\<close> loop bodies; \<open>get_texts\<close> then returns these pages, or their bodies. When
  the fuel runs out instead, every page fetched so far was neither last nor enough.
  Every list of pages that \<^verbatim>\<open>_fetch_texts\<close> returns after a first page that is not
  empty holds at least one page. Nothing here depends on the other search options.
\<close>

theorem C4_texts_not_found:
  "(status_code (page_response post log text (merge_params params) 1) = 200 \<longrightarrow>
      (fst (get_texts fuel post text params log) = Some (Inl (TextsNotFoundError text)) \<longleftrightarrow>
       empty_page (page_of post log text (merge_params params) 1))) \<and>
   (fst (get_texts fuel post text params log) = Some (Inl (TextsNotFoundError s)) \<longrightarrow>
      s = text \<and> status_code (page_response post log text (merge_params params) 1) = 200 \<and>
      empty_page (page_of post log text (merge_params params) 1)) \<and>
   (status_code (page_response post log text (merge_params params) 1) = 200 \<and>
    \<not> empty_page (page_of post log text (merge_params params) 1) \<longrightarrow>
      (\<forall>res c. fst (fetch_texts fuel post text (merge_params params) log) = Some (Inr (res, c)) \<longrightarrow>
         1 \<le> length res)) \<and>
   (1 \<le> m \<and>
    (\<forall>j. 1 \<le> j \<and> j \<le> m \<longrightarrow>
       status_code (page_response post log text (merge_params params) j) = 200) \<and>
    \<not> empty_page (page_of post log text (merge_params params) 1) \<and>
    (\<forall>j. 1 \<le> j \<and> j < m \<longrightarrow>
       accumulated post log text (merge_params params) j <
         target_count post log text (merge_params params) \<and>
       \<not> last_page (page_of post log text (merge_params params) j)) \<and>
    (last_page (page_of post log text (merge_params params) m) \<or>
     target_count post log text (merge_params params) \<le>
       accumulated post log text (merge_params params) m) \<and>
    m \<le> Suc fuel \<longrightarrow>
      fst (fetch_texts fuel post text (merge_params params) log) =
        Some (Inr (map (page_of post log text (merge_params params)) [1..<Suc m],
                   effective_target post log text (merge_params params))) \<and>
      length (map (page_of post log text (merge_params params)) [1..<Suc m]) = m \<and>
      fst (get_texts fuel post text params log) =
        Some (Inr (if return_full_json (merge_params params)
                   then FullPages (map (page_of post log text (merge_params params)) [1..<Suc m])
                   else Bodies (slice_to (effective_target post log text (merge_params params))
                          (concat (map (\<lambda>p. map item_body (content p))
                             (map (page_of post log text (merge_params params)) [1..<Suc m]))))))) \<and>
   (status_code (page_response post log text (merge_params params) 1) = 200 \<and>
    \<not> empty_page (page_of post log text (merge_params params) 1) \<and>
    fst (get_texts fuel post text params log) = None \<longrightarrow>
      (\<forall>j. 1 \<le> j \<and> j \<le> Suc fuel \<longrightarrow>
         status_code (page_response post log text (merge_params params) j) = 200 \<and>
         \<not> last_page (page_of post log text (merge_params params) j) \<and>
         accumulated post log text (merge_params params) j <
           target_count post log text (merge_params params))) \<and>
   (fst (get_texts fuel post text params log) = Some (Inl e) \<longrightarrow>
      e = TextsNotFoundError text \<or> (\<exists>code msg. e = APIError code msg))"
proof -
  let ?sp = "merge_params params"
  from fetch_texts_shape[of fuel post "text" ?sp log]
  obtain m0 where m0: "1 \<le> m0"
    and res: "\<forall>res c'. fst (fetch_texts fuel post text ?sp log) = Some (Inr (res, c')) \<longrightarrow>
        status_code (page_response post log text ?sp (Suc 0)) = 200 \<and>
        c' = effective_target post log text ?sp \<and>
        (if empty_page (page_of post log text ?sp (Suc 0)) then res = []
         else res = map (page_of post log text ?sp) [1..<Suc m0])"
    by blast
  have ne: "res \<noteq> []" if "fst (fetch_texts fuel post text ?sp log) = Some (Inr (res, c))"
    "\<not> empty_page (page_of post log text ?sp (Suc 0))" for res c
    using res that m0 by auto
  have raised: "s = text \<and> status_code (page_response post log text ?sp 1) = 200 \<and>
      empty_page (page_of post log text ?sp 1)"
    if r: "fst (get_texts fuel post text params log) = Some (Inl (TextsNotFoundError s))" for s
  proof (cases "status_code (page_response post log text ?sp (Suc 0)) = 200")
    case False
    with r show ?thesis
      by (simp add: get_texts_result fetch_texts_error)
  next
    case True
    from r obtain rs c where rc: "fst (fetch_texts fuel post text ?sp log) = Some (Inr (rs, c))"
      and e: "rs = []" and s: "s = text"
      unfolding get_texts_result
      by (auto split: option.splits sum.splits prod.splits if_splits dest: fetch_texts_raises)
    from ne[OF rc] e have "empty_page (page_of post log text ?sp (Suc 0))" by blast
    with True s show ?thesis by simp
  qed
  have a: "status_code (page_response post log text ?sp 1) = 200 \<longrightarrow>
      (fst (get_texts fuel post text params log) = Some (Inl (TextsNotFoundError text)) \<longleftrightarrow>
       empty_page (page_of post log text ?sp 1))"
  proof (intro impI iffI)
    assume "fst (get_texts fuel post text params log) = Some (Inl (TextsNotFoundError text))"
    then show "empty_page (page_of post log text ?sp 1)" using raised by blast
  next
    assume "status_code (page_response post log text ?sp 1) = 200"
      and "empty_page (page_of post log text ?sp 1)"
    then show "fst (get_texts fuel post text params log) = Some (Inl (TextsNotFoundError text))"
      by (simp add: get_texts_result fetch_texts_empty)
  qed
  have b: "fst (get_texts fuel post text params log) = Some (Inl (TextsNotFoundError s)) \<longrightarrow>
      s = text \<and> status_code (page_response post log text ?sp 1) = 200 \<and>
      empty_page (page_of post log text ?sp 1)"
    using raised by blast
  have c: "status_code (page_response post log text ?sp 1) = 200 \<and>
    \<not> empty_page (page_of post log text ?sp 1) \<longrightarrow>
      (\<forall>res c. fst (fetch_texts fuel post text ?sp log) = Some (Inr (res, c)) \<longrightarrow>
         1 \<le> length res)"
  proof (intro impI allI)
    fix res c
    assume "status_code (page_response post log text ?sp 1) = 200 \<and>
      \<not> empty_page (page_of post log text ?sp 1)"
      and "fst (fetch_texts fuel post text ?sp log) = Some (Inr (res, c))"
    with ne[of res c] have "res \<noteq> []" by simp
    then show "1 \<le> length res" by (cases res) simp_all
  qed
  have d: "1 \<le> m \<and>
    (\<forall>j. 1 \<le> j \<and> j \<le> m \<longrightarrow> status_code (page_response post log text ?sp j) = 200) \<and>
    \<not> empty_page (page_of post log text ?sp 1) \<and>
    (\<forall>j. 1 \<le> j \<and> j < m \<longrightarrow>
       accumulated post log text ?sp j < target_count post log text ?sp \<and>
       \<not> last_page (page_of post log text ?sp j)) \<and>
    (last_page (page_of post log text ?sp m) \<or>
     target_count post log text ?sp \<le> accumulated post log text ?sp m) \<and>
    m \<le> Suc fuel \<longrightarrow>
      fst (fetch_texts fuel post text ?sp log) =
        Some (Inr (map (page_of post log text ?sp) [1..<Suc m],
                   effective_target post log text ?sp)) \<and>
      length (map (page_of post log text ?sp) [1..<Suc m]) = m \<and>
      fst (get_texts fuel post text params log) =
        Some (Inr (if return_full_json ?sp
                   then FullPages (map (page_of post log text ?sp) [1..<Suc m])
                   else Bodies (slice_to (effective_target post log text ?sp)
                          (concat (map (\<lambda>p. map item_body (content p))
                             (map (page_of post log text ?sp) [1..<Suc m]))))))"
  proof (intro impI)
    assume h: "1 \<le> m \<and>
      (\<forall>j. 1 \<le> j \<and> j \<le> m \<longrightarrow> status_code (page_response post log text ?sp j) = 200) \<and>
      \<not> empty_page (page_of post log text ?sp 1) \<and>
      (\<forall>j. 1 \<le> j \<and> j < m \<longrightarrow>
         accumulated post log text ?sp j < target_count post log text ?sp \<and>
         \<not> last_page (page_of post log text ?sp j)) \<and>
      (last_page (page_of post log text ?sp m) \<or>
       target_count post log text ?sp \<le> accumulated post log text ?sp m) \<and>
      m \<le> Suc fuel"
    then have m1: "1 \<le> m" and "m \<le> Suc fuel" by blast+
    then have mf: "m - 1 \<le> fuel" by arith
    from h have ne1: "\<not> empty_page (page_of post log text ?sp (Suc 0))" by simp
    from h have run: "fetch_texts fuel post text ?sp log =
       (if m - 1 \<le> fuel
        then (Some (Inr (map (page_of post log text ?sp) [1..<Suc m],
                         effective_target post log text ?sp)),
              history post log text ?sp (Suc m))
        else (None, history post log text ?sp (Suc (Suc fuel))))"
      by (intro fetch_texts_run[OF m1 _ ne1]) blast+
    with mf have r1: "fst (fetch_texts fuel post text ?sp log) =
        Some (Inr (map (page_of post log text ?sp) [1..<Suc m],
                   effective_target post log text ?sp))"
      by simp
    have r2: "length (map (page_of post log text ?sp) [1..<Suc m]) = m" by simp
    from m1 have "map (page_of post log text ?sp) [1..<Suc m] \<noteq> []" by simp
    with r1 have r3: "fst (get_texts fuel post text params log) =
        Some (Inr (if return_full_json ?sp
                   then FullPages (map (page_of post log text ?sp) [1..<Suc m])
                   else Bodies (slice_to (effective_target post log text ?sp)
                          (concat (map (\<lambda>p. map item_body (content p))
                             (map (page_of post log text ?sp) [1..<Suc m]))))))"
      unfolding get_texts_result by simp
    from r1 r2 r3 show "fst (fetch_texts fuel post text ?sp log) =
        Some (Inr (map (page_of post log text ?sp) [1..<Suc m],
                   effective_target post log text ?sp)) \<and>
      length (map (page_of post log text ?sp) [1..<Suc m]) = m \<and>
      fst (get_texts fuel post text params log) =
        Some (Inr (if return_full_json ?sp
                   then FullPages (map (page_of post log text ?sp) [1..<Suc m])
                   else Bodies (slice_to (effective_target post log text ?sp)
                          (concat (map (\<lambda>p. map item_body (content p))
                             (map (page_of post log text ?sp) [1..<Suc m]))))))"
      by (intro conjI)
  qed
  have e: "status_code (page_response post log text ?sp 1) = 200 \<and>
    \<not> empty_page (page_of post log text ?sp 1) \<and>
    fst (get_texts fuel post text params log) = None \<longrightarrow>
      (\<forall>j. 1 \<le> j \<and> j \<le> Suc fuel \<longrightarrow>
         status_code (page_response post log text ?sp j) = 200 \<and>
         \<not> last_page (page_of post log text ?sp j) \<and>
         accumulated post log text ?sp j < target_count post log text ?sp)"
  proof (intro impI)
    assume h: "status_code (page_response post log text ?sp 1) = 200 \<and>
      \<not> empty_page (page_of post log text ?sp 1) \<and>
      fst (get_texts fuel post text params log) = None"
    then have "fst (fetch_texts fuel post text ?sp log) = None"
      unfolding get_texts_result
      by (auto split: option.splits sum.splits prod.splits if_splits)
    with h show "\<forall>j. 1 \<le> j \<and> j \<le> Suc fuel \<longrightarrow>
         status_code (page_response post log text ?sp j) = 200 \<and>
         \<not> last_page (page_of post log text ?sp j) \<and>
         accumulated post log text ?sp j < target_count post log text ?sp"
      by (intro fetch_texts_none) simp_all
  qed
  have f: "fst (get_texts fuel post text params log) = Some (Inl e) \<longrightarrow>
      e = TextsNotFoundError text \<or> (\<exists>code msg. e = APIError code msg)"
    unfolding get_texts_result
    by (auto split: option.splits sum.splits prod.splits if_splits dest: fetch_texts_raises)
  from a b c d e f show ?thesis by (intro conjI)
qed

text \<open>
  C4 on the upstream that finds nothing and on the example corpus: the empty first
  page raises \<open>TextsNotFoundError\<close>; the search of the example corpus returns its three
  pages, and \<open>get_texts\<close> their five bodies; with fuel for one loop body only, the
  search has not returned, two pages having been fetched without reaching the target.
\<close>

theorem C4_texts_not_found_witness:
  "fst (get_texts 5 ex_nothing ''q'' None []) = Some (Inl (TextsNotFoundError ''q'')) \<and>
   empty_page (page_of ex_nothing [] ''q'' (merge_params None) 1) \<and>
   \<not> empty_page (page_of ex_corpus [] ''q'' (merge_params None) 1) \<and>
   fst (fetch_texts 5 ex_corpus ''q'' (merge_params None) []) =
     Some (Inr (map (page_of ex_corpus [] ''q'' (merge_params None)) [1..<Suc 3],
                effective_target ex_corpus [] ''q'' (merge_params None))) \<and>
   length (map (page_of ex_corpus [] ''q'' (merge_params None)) [1..<Suc 3]) = 3 \<and>
   1 \<le> length (map (page_of ex_corpus [] ''q'' (merge_params None)) [1..<Suc 3]) \<and>
   fst (get_texts 5 ex_corpus ''q'' None []) =
     Some (Inr (Bodies [''t1'', ''t2'', ''t3'', ''t4'', ''t5''])) \<and>
   fst (get_texts 1 ex_corpus ''q'' None []) = None \<and>
   accumulated ex_corpus [] ''q'' (merge_params None) 2 <
     target_count ex_corpus [] ''q'' (merge_params None)"
proof -
  let ?sp = "merge_params None"
  have s1: "status_code (page_response ex_nothing [] ''q'' ?sp 1) = 200"
    by (simp add: page_response_def ex_nothing_def)
  have e1: "empty_page (page_of ex_nothing [] ''q'' ?sp 1)"
    by (simp add: page_of_def page_response_def ex_nothing_def)
  have st: "status_code (page_response ex_corpus [] ''q'' ?sp j) = 200" for j
    by (simp add: page_response_def ex_corpus_def)
  have e2: "\<not> empty_page (page_of ex_corpus [] ''q'' ?sp 1)"
    by (simp add: page_of_def page_response_def ex_corpus_def)
  have lp: "last_page (page_of ex_corpus [] ''q'' ?sp j) = (3 \<le> j)" if "1 \<le> j" for j
    using that by (simp add: page_of_def page_response_def ex_corpus_def page_request_page)
  have tg: "target_count ex_corpus [] ''q'' ?sp = 10"
    by (simp add: target_count_def merge_params_def DEFAULT_PARAMS_def)
  have n1: "numberOfElements (page_of ex_corpus [] ''q'' ?sp (Suc 0)) = 2"
    by (simp add: page_of_def page_response_def ex_corpus_def page_request_page)
  have n2: "numberOfElements (page_of ex_corpus [] ''q'' ?sp (Suc (Suc 0))) = 2"
    by (simp add: page_of_def page_response_def ex_corpus_def page_request_page)
  have n3: "numberOfElements (page_of ex_corpus [] ''q'' ?sp (Suc (Suc (Suc 0)))) = 1"
    by (simp add: page_of_def page_response_def ex_corpus_def page_request_page)
  have a1': "accumulated ex_corpus [] ''q'' ?sp (Suc 0) = 2"
    unfolding accumulated_one n1 ..
  have a2': "accumulated ex_corpus [] ''q'' ?sp (Suc (Suc 0)) = 4"
    unfolding accumulated_Suc[of ex_corpus "[]" "''q''" ?sp "Suc 0"] a1' n2 by simp
  have a3': "accumulated ex_corpus [] ''q'' ?sp (Suc (Suc (Suc 0))) = 5"
    unfolding accumulated_Suc[of ex_corpus "[]" "''q''" ?sp "Suc (Suc 0)"] a2' n3 by simp
  have a1: "accumulated ex_corpus [] ''q'' ?sp 1 = 2"
    using a1' by simp
  have a2: "accumulated ex_corpus [] ''q'' ?sp 2 = 4"
    using a2' by (simp only: numeral_2_eq_2)
  have a3: "accumulated ex_corpus [] ''q'' ?sp 3 = 5"
    using a3' by (simp only: numeral_3_eq_3)
  have below: "\<forall>j. 1 \<le> j \<and> j < 3 \<longrightarrow>
       accumulated ex_corpus [] ''q'' ?sp j < target_count ex_corpus [] ''q'' ?sp \<and>
       \<not> last_page (page_of ex_corpus [] ''q'' ?sp j)"
  proof (intro allI impI)
    fix j :: nat assume j: "1 \<le> j \<and> j < 3"
    then have "j = 1 \<or> j = 2" by arith
    then show "accumulated ex_corpus [] ''q'' ?sp j < target_count ex_corpus [] ''q'' ?sp \<and>
       \<not> last_page (page_of ex_corpus [] ''q'' ?sp j)"
      using a1 a2 tg lp[of j] j by auto
  qed
  have h: "1 \<le> (3::nat) \<and>
    (\<forall>j. 1 \<le> j \<and> j \<le> 3 \<longrightarrow> status_code (page_response ex_corpus [] ''q'' ?sp j) = 200) \<and>
    \<not> empty_page (page_of ex_corpus [] ''q'' ?sp 1) \<and>
    (\<forall>j. 1 \<le> j \<and> j < 3 \<longrightarrow>
       accumulated ex_corpus [] ''q'' ?sp j < target_count ex_corpus [] ''q'' ?sp \<and>
       \<not> last_page (page_of ex_corpus [] ''q'' ?sp j)) \<and>
    (last_page (page_of ex_corpus [] ''q'' ?sp 3) \<or>
     target_count ex_corpus [] ''q'' ?sp \<le> accumulated ex_corpus [] ''q'' ?sp 3) \<and>
    3 \<le> Suc 5"
    using st e2 below lp[of 3] by simp
  note i1 = C4_texts_not_found[of ex_nothing "[]" "''q''" None 5 "''q''" 1 "TextsNotFoundError ''q''"]
  note i2 = C4_texts_not_found[of ex_corpus "[]" "''q''" None 5 "''q''" 3 "TextsNotFoundError ''q''"]
  note i3 = C4_texts_not_found[of ex_corpus "[]" "''q''" None 1 "''q''" 3 "TextsNotFoundError ''q''"]
  from i1[THEN conjunct1] s1 e1
  have w1: "fst (get_texts 5 ex_nothing ''q'' None []) = Some (Inl (TextsNotFoundError ''q''))"
    by simp
  note d = mp[OF i2[THEN conjunct2, THEN conjunct2, THEN conjunct2, THEN conjunct1] h]
  from d have w2: "fst (fetch_texts 5 ex_corpus ''q'' ?sp []) =
     Some (Inr (map (page_of ex_corpus [] ''q'' ?sp) [1..<Suc 3],
                effective_target ex_corpus [] ''q'' ?sp))"
    by (rule conjunct1)
  from d have w3: "length (map (page_of ex_corpus [] ''q'' ?sp) [1..<Suc 3]) = 3"
    by (rule conjunct2[THEN conjunct1])
  have se: "status_code (page_response ex_corpus [] ''q'' ?sp 1) = 200 \<and>
      \<not> empty_page (page_of ex_corpus [] ''q'' ?sp 1)"
    using st[of 1] e2 by (rule conjI)
  note c = mp[OF i2[THEN conjunct2, THEN conjunct2, THEN conjunct1] se]
  from c[rule_format, OF w2]
  have w4: "1 \<le> length (map (page_of ex_corpus [] ''q'' ?sp) [1..<Suc 3])" .
  have w5: "fst (get_texts 5 ex_corpus ''q'' None []) =
     Some (Inr (Bodies [''t1'', ''t2'', ''t3'', ''t4'', ''t5'']))"
    by (simp add: eval_nat_numeral get_texts_def merge_params_def fetch_texts_def make_request_def
        build_search_payload_def ex_corpus_def Let_def DEFAULT_PARAMS_def slice_to_def)
  have w6: "fst (get_texts 1 ex_corpus ''q'' None []) = None"
    by (simp add: get_texts_def merge_params_def fetch_texts_def make_request_def
        build_search_payload_def ex_corpus_def Let_def DEFAULT_PARAMS_def)
  have sen: "status_code (page_response ex_corpus [] ''q'' ?sp 1) = 200 \<and>
      \<not> empty_page (page_of ex_corpus [] ''q'' ?sp 1) \<and>
      fst (get_texts 1 ex_corpus ''q'' None []) = None"
    using st[of 1] e2 w6 by (intro conjI)
  note e = mp[OF i3[THEN conjunct2, THEN conjunct2, THEN conjunct2, THEN conjunct2,
      THEN conjunct1] sen]
  have "1 \<le> (2::nat) \<and> 2 \<le> Suc 1" by simp
  from e[rule_format, OF this]
  have w7: "accumulated ex_corpus [] ''q'' ?sp 2 < target_count ex_corpus [] ''q'' ?sp"
    by (rule conjunct2[THEN conjunct2])
  from w1 e1 e2 w2 w3 w4 w5 w6 w7 show ?thesis by (intro conjI)
qed
text \<open>
  Claim C2, amended. When \<open>get_texts\<close> returns with \<open>return_full_json\<close> false, the pages
  fetched are the pages \<open>1, ..., m\<close> in this order, and the result is the list of the
  bodies of their content items, page by page and in content order, cut by the Python
  slice \<^verbatim>\<open>[:target]\<close> at the effective target count. For a target that is not negative
  this is the list of the first \<open>target\<close> bodies, so the result has at most \<open>target\<close>
  items, and fewer when fewer were fetched.
\<close>

theorem C2_flattened_bodies:
  "fst (get_texts fuel post text params log) = Some (Inr r) \<and>
   \<not> return_full_json (merge_params params) \<longrightarrow>
   (\<exists>m. 1 \<le> m \<and>
      snd (get_texts fuel post text params log) =
        log @ map (page_request text (merge_params params)
                     (first_total post log text (merge_params params))) [1..<Suc m] \<and>
      r = Bodies (slice_to (effective_target post log text (merge_params params))
            (concat (map (\<lambda>p. map item_body (content p))
               (map (page_of post log text (merge_params params)) [1..<Suc m])))) \<and>
      (0 \<le> effective_target post log text (merge_params params) \<longrightarrow>
         r = Bodies (take (nat (effective_target post log text (merge_params params)))
               (concat (map (\<lambda>p. map item_body (content p))
                  (map (page_of post log text (merge_params params)) [1..<Suc m])))) \<and>
         (\<exists>bs. r = Bodies bs \<and>
            int (length bs) \<le> effective_target post log text (merge_params params))))"
proof (intro impI)
  let ?sp = "merge_params params"
  let ?tgt = "effective_target post log text ?sp"
  assume h: "fst (get_texts fuel post text params log) = Some (Inr r) \<and> \<not> return_full_json ?sp"
  from fetch_texts_shape[of fuel post "text" ?sp log]
  obtain m where m: "1 \<le> m"
    and lg: "snd (fetch_texts fuel post text ?sp log) = history post log text ?sp (Suc m)"
    and res: "\<forall>res c'. fst (fetch_texts fuel post text ?sp log) = Some (Inr (res, c')) \<longrightarrow>
        status_code (page_response post log text ?sp (Suc 0)) = 200 \<and>
        c' = effective_target post log text ?sp \<and>
        (if empty_page (page_of post log text ?sp (Suc 0)) then res = []
         else res = map (page_of post log text ?sp) [1..<Suc m])"
    by blast
  let ?all = "concat (map (\<lambda>p. map item_body (content p))
                 (map (page_of post log text ?sp) [1..<Suc m]))"
  from h obtain rs c where rc: "fst (fetch_texts fuel post text ?sp log) = Some (Inr (rs, c))"
    and ne: "rs \<noteq> []"
    and r: "r = Bodies (slice_to c (concat (map (\<lambda>p. map item_body (content p)) rs)))"
    unfolding get_texts_result
    by (auto split: option.splits sum.splits prod.splits if_splits)
  from res rc ne have c: "c = ?tgt" and rs: "rs = map (page_of post log text ?sp) [1..<Suc m]"
    by (auto split: if_splits)
  have r1: "r = Bodies (slice_to ?tgt ?all)"
    using r c rs by simp
  have r2: "0 \<le> ?tgt \<longrightarrow>
      r = Bodies (take (nat ?tgt) ?all) \<and> (\<exists>bs. r = Bodies bs \<and> int (length bs) \<le> ?tgt)"
  proof
    assume nn: "0 \<le> ?tgt"
    then have t: "r = Bodies (take (nat ?tgt) ?all)"
      using r1 by (simp add: slice_to_nonneg)
    have "int (length (take (nat ?tgt) ?all)) \<le> ?tgt" using nn by simp
    with t show "r = Bodies (take (nat ?tgt) ?all) \<and>
        (\<exists>bs. r = Bodies bs \<and> int (length bs) \<le> ?tgt)" by blast
  qed
  have l: "snd (get_texts fuel post text params log) =
        log @ map (page_request text ?sp (first_total post log text ?sp)) [1..<Suc m]"
    unfolding get_texts_log lg by (simp add: history_def)
  from m l r1 r2 show "\<exists>m. 1 \<le> m \<and>
      snd (get_texts fuel post text params log) =
        log @ map (page_request text ?sp (first_total post log text ?sp)) [1..<Suc m] \<and>
      r = Bodies (slice_to ?tgt
            (concat (map (\<lambda>p. map item_body (content p))
               (map (page_of post log text ?sp) [1..<Suc m])))) \<and>
      (0 \<le> ?tgt \<longrightarrow>
         r = Bodies (take (nat ?tgt)
               (concat (map (\<lambda>p. map item_body (content p))
                  (map (page_of post log text ?sp) [1..<Suc m])))) \<and>
         (\<exists>bs. r = Bodies bs \<and> int (length bs) \<le> ?tgt))"
    by (intro exI[of _ m] conjI)
qed

text \<open>C2 on the example corpus, with a requested count of three.\<close>

theorem C2_flattened_bodies_witness:
  "get_texts 5 ex_corpus ''q'' (Some (no_params\<lparr>given_count := Some 3\<rparr>)) [] =
     (Some (Inr (Bodies [''t1'', ''t2'', ''t3''])),
      [page_request ''q'' (merge_params (Some (no_params\<lparr>given_count := Some 3\<rparr>))) 5 1,
       page_request ''q'' (merge_params (Some (no_params\<lparr>given_count := Some 3\<rparr>))) 5 2]) \<and>
   effective_target ex_corpus [] ''q'' (merge_params (Some (no_params\<lparr>given_count := Some 3\<rparr>))) = 3 \<and>
   (\<exists>bs. Bodies [''t1'', ''t2'', ''t3''] = Bodies bs \<and> int (length bs) \<le> 3)"
proof -
  let ?p = "Some (no_params\<lparr>given_count := Some 3\<rparr>)"
  have ev: "get_texts 5 ex_corpus ''q'' ?p [] =
     (Some (Inr (Bodies [''t1'', ''t2'', ''t3''])),
      [page_request ''q'' (merge_params ?p) 5 1, page_request ''q'' (merge_params ?p) 5 2])"
    by (simp add: eval_nat_numeral get_texts_def merge_params_def update_params_def no_params_def
        fetch_texts_def make_request_def build_search_payload_def ex_corpus_def Let_def
        DEFAULT_PARAMS_def slice_to_def page_request_def)
  have tg: "effective_target ex_corpus [] ''q'' (merge_params ?p) = 3"
    by (simp add: effective_target_def merge_params_def update_params_def no_params_def
        DEFAULT_PARAMS_def)
  have rf: "\<not> return_full_json (merge_params ?p)"
    by (simp add: merge_params_def update_params_def no_params_def DEFAULT_PARAMS_def)
  from C2_flattened_bodies[of 5 ex_corpus "''q''" ?p "[]" "Bodies [''t1'', ''t2'', ''t3'']"] ev tg rf
  have "\<exists>bs. Bodies [''t1'', ''t2'', ''t3''] = Bodies bs \<and> int (length bs) \<le> 3"
    by auto
  with ev tg show ?thesis by simp
qed

text \<open>
  Claim C2 as stated fails for a negative count. The first page of the example corpus
  is not the last one and holds two texts; with \<^verbatim>\<open>count = -1\<close> the loop is not entered
  and the slice \<^verbatim>\<open>[:-1]\<close> drops the last of the two bodies, so one item is returned
  for a target of \<open>-1\<close>.
\<close>

theorem C2_negative_count_counterexample:
  "get_texts 5 ex_corpus ''q'' (Some (no_params\<lparr>given_count := Some (- 1)\<rparr>)) [] =
     (Some (Inr (Bodies [''t1''])),
      [page_request ''q'' (merge_params (Some (no_params\<lparr>given_count := Some (- 1)\<rparr>))) 5 1]) \<and>
   effective_target ex_corpus [] ''q''
     (merge_params (Some (no_params\<lparr>given_count := Some (- 1)\<rparr>))) = - 1 \<and>
   \<not> int (length [''t1'']) \<le> - 1"
  by (simp add: eval_nat_numeral get_texts_def merge_params_def update_params_def no_params_def
      fetch_texts_def make_request_def build_search_payload_def ex_corpus_def Let_def
      DEFAULT_PARAMS_def slice_to_def page_request_def effective_target_def)

text \<open>
  Why the loop takes fuel: against \<open>ex_endless\<close> the loop condition stays true and no
  page is the last one, so no amount of fuel lets the search return.
\<close>

lemma fetch_loop_endless:
  "0 < c \<Longrightarrow> fst (fetch_loop fuel ex_endless text params t c 0 k results log) = None"
proof (induction fuel arbitrary: k results log)
  case 0
  then show ?case by simp
next
  case (Suc fuel)
  then show ?case
    by (simp add: make_request_def ex_endless_def Let_def)
qed

lemma fetch_texts_endless: "fst (fetch_texts fuel ex_endless ''q'' DEFAULT_PARAMS []) = None"
proof -
  have "fst (fetch_loop fuel ex_endless ''q'' DEFAULT_PARAMS 1 10 0 2 results log) = None"
    for results log
    by (rule fetch_loop_endless) simp
  then show ?thesis
    by (simp add: fetch_texts_def make_request_def ex_endless_def Let_def DEFAULT_PARAMS_def)
qed

end
